theory Spec2Isabelle
  imports Complex_Main "HOL-Library.AList"
begin

section \<open>JavaScript numbers\<close>

text \<open>
  A JavaScript \<^verbatim>\<open>number\<close> is a finite value, one of the two infinities, or NaN.
  Finite values are modelled as reals: rounding, overflow to an infinity and the sign of
  zero are not modelled (a division by zero divides by positive zero).
  \<^verbatim>\<open>Number.isFinite\<close>, \<^verbatim>\<open>Math.min\<close>, \<^verbatim>\<open>Math.max\<close> and the arithmetic
  operators follow ECMAScript on the special values.
\<close>

datatype jsnum = Fin real | PInf | NInf | NaN

fun isFinite :: "jsnum \<Rightarrow> bool" where
  "isFinite (Fin _) = True"
| "isFinite _ = False"

fun Math_min :: "jsnum \<Rightarrow> jsnum \<Rightarrow> jsnum" where
  "Math_min NaN _ = NaN"
| "Math_min _ NaN = NaN"
| "Math_min NInf _ = NInf"
| "Math_min _ NInf = NInf"
| "Math_min PInf b = b"
| "Math_min a PInf = a"
| "Math_min (Fin a) (Fin b) = Fin (min a b)"

fun Math_max :: "jsnum \<Rightarrow> jsnum \<Rightarrow> jsnum" where
  "Math_max NaN _ = NaN"
| "Math_max _ NaN = NaN"
| "Math_max PInf _ = PInf"
| "Math_max _ PInf = PInf"
| "Math_max NInf b = b"
| "Math_max a NInf = a"
| "Math_max (Fin a) (Fin b) = Fin (max a b)"

text \<open>The sign of a number that is not NaN, and the infinity of a given sign.\<close>

fun sign_of :: "jsnum \<Rightarrow> real" where
  "sign_of (Fin a) = sgn a"
| "sign_of PInf = 1"
| "sign_of NInf = -1"
| "sign_of NaN = 0"

definition inf_of :: "real \<Rightarrow> jsnum" where
  "inf_of s = (if 0 < s then PInf else if s < 0 then NInf else NaN)"

text \<open>\<^verbatim>\<open>a * b\<close>: an infinity times zero is NaN.\<close>

fun jmul :: "jsnum \<Rightarrow> jsnum \<Rightarrow> jsnum" where
  "jmul NaN _ = NaN"
| "jmul _ NaN = NaN"
| "jmul (Fin a) (Fin b) = Fin (a * b)"
| "jmul a b = inf_of (sign_of a * sign_of b)"

text \<open>\<^verbatim>\<open>a - b\<close>: the difference of two equal infinities is NaN.\<close>

fun jsub :: "jsnum \<Rightarrow> jsnum \<Rightarrow> jsnum" where
  "jsub NaN _ = NaN"
| "jsub _ NaN = NaN"
| "jsub (Fin a) (Fin b) = Fin (a - b)"
| "jsub (Fin a) PInf = NInf"
| "jsub (Fin a) NInf = PInf"
| "jsub PInf PInf = NaN"
| "jsub NInf NInf = NaN"
| "jsub PInf _ = PInf"
| "jsub NInf _ = NInf"

text \<open>\<^verbatim>\<open>a / b\<close>.\<close>

fun jdiv :: "jsnum \<Rightarrow> jsnum \<Rightarrow> jsnum" where
  "jdiv NaN _ = NaN"
| "jdiv _ NaN = NaN"
| "jdiv (Fin a) (Fin b) = (if b = 0 then inf_of (sgn a) else Fin (a / b))"
| "jdiv (Fin a) _ = Fin 0"
| "jdiv a (Fin b) = inf_of (sign_of a * (if b < 0 then -1 else 1))"
| "jdiv _ _ = NaN"

text \<open>
  \<^verbatim>\<open>a % b\<close>: the remainder has the sign of the dividend (the quotient is truncated
  towards zero); it is NaN for an infinite dividend or a zero divisor, and the dividend
  itself for an infinite divisor.
\<close>

definition trunc :: "real \<Rightarrow> int" where
  "trunc r = (if 0 \<le> r then \<lfloor>r\<rfloor> else \<lceil>r\<rceil>)"

fun jrem :: "jsnum \<Rightarrow> jsnum \<Rightarrow> jsnum" where
  "jrem NaN _ = NaN"
| "jrem _ NaN = NaN"
| "jrem (Fin a) (Fin b) = (if b = 0 then NaN else Fin (a - b * of_int (trunc (a / b))))"
| "jrem (Fin a) _ = Fin a"
| "jrem _ _ = NaN"

text \<open>Truthiness of a number: \<^verbatim>\<open>0\<close> and \<^verbatim>\<open>NaN\<close> are falsy.\<close>

fun truthy :: "jsnum \<Rightarrow> bool" where
  "truthy (Fin a) = (a \<noteq> 0)"
| "truthy NaN = False"
| "truthy _ = True"

section \<open>The data model (types.ts)\<close>

record Stage =
  id_s :: string
  label_s :: string
  description_s :: string
  weight_s :: jsnum

datatype NodeType = Intent | Fact | Intermediate | Conclusion | Constraint | Context

record Node =
  id_n :: string
  label_n :: string
  type_n :: NodeType
  importance_n :: jsnum
  stage_id_n :: string

record Edge =
  source :: string
  target :: string
  relation_label :: string
  strength :: jsnum

datatype Confidence = High | Medium | Low

text \<open>
  The three arrays the layout reads may be missing at run time (the layout tests
  \<^verbatim>\<open>Array.isArray(data.nodes)\<close>, \<^verbatim>\<open>Array.isArray(data.edges)\<close> and
  \<^verbatim>\<open>data.stages || []\<close>): \<open>None\<close> is a missing array.
\<close>

record ExplainTrace =
  stages :: "Stage list option"
  nodes :: "Node list option"
  edges :: "Edge list option"
  steps :: "string list"
  key_factors :: "string list"
  confidence :: Confidence
  timestamp :: string

record Point3D =
  x_p :: jsnum
  y_p :: jsnum
  z_p :: jsnum

section \<open>The layout (VisualizedGraph, useMemo)\<close>

text \<open>
  The objects handed to d3: a shallow copy of the node
  (\<^verbatim>\<open>{...n, x: ..., y: ...}\<close>) that d3 then mutates, adding \<^verbatim>\<open>index\<close>
  (\<open>None\<close> while the field is \<^verbatim>\<open>undefined\<close>).
\<close>

record D3Node = Node +
  x_d :: jsnum
  y_d :: jsnum
  index_d :: "jsnum option"

record D3Link =
  source_l :: string
  target_l :: string
  strength_l :: jsnum

text \<open>
  \<^verbatim>\<open>Math.random()\<close> is a parameter: \<open>random k\<close> is the value of the \<open>k\<close>-th call
  (counted from 0). \<^verbatim>\<open>nodes.map\<close> visits the nodes in order and each callback draws
  \<^verbatim>\<open>x\<close> then \<^verbatim>\<open>y\<close>, so the node at ordinal \<open>i\<close> takes the draws \<open>2 i\<close> and
  \<open>2 i + 1\<close>.
\<close>

definition seedNode :: "(nat \<Rightarrow> real) \<Rightarrow> nat \<Rightarrow> Node \<Rightarrow> D3Node" where
  "seedNode random i n =
     \<lparr>id_n = id_n n, label_n = label_n n, type_n = type_n n,
      importance_n = importance_n n, stage_id_n = stage_id_n n,
      x_d = Fin (random (2 * i) * 10 - 5),
      y_d = Fin (random (2 * i + 1) * 10 - 5),
      index_d = None\<rparr>"

definition d3Nodes :: "(nat \<Rightarrow> real) \<Rightarrow> Node list \<Rightarrow> D3Node list" where
  "d3Nodes random ns = map (\<lambda>(i, n). seedNode random i n) (enumerate 0 ns)"

text \<open>
  \<^verbatim>\<open>edges.filter(e => nodeIds.has(e.source) && nodeIds.has(e.target))\<close> and the
  \<^verbatim>\<open>.map\<close> to fresh link objects.
\<close>

definition linkEdges :: "Node list \<Rightarrow> Edge list \<Rightarrow> Edge list" where
  "linkEdges ns es =
     (let nodeIds = set (map id_n ns)
      in filter (\<lambda>e. source e \<in> nodeIds \<and> target e \<in> nodeIds) es)"

definition d3Links :: "Node list \<Rightarrow> Edge list \<Rightarrow> D3Link list" where
  "d3Links ns es =
     map (\<lambda>e. \<lparr>source_l = source e, target_l = target e, strength_l = strength e\<rparr>)
       (linkEdges ns es)"

text \<open>
  The lane targets: \<^verbatim>\<open>const t = index / (stageCount - 1 || 1);
  stageX[id] = -stageWidth/2 + t * stageWidth\<close>. \<^verbatim>\<open>stageCount - 1 || 1\<close> is
  \<^verbatim>\<open>(stageCount - 1) || 1\<close>: the divisor is 1 when \<^verbatim>\<open>stageCount - 1\<close> is 0.
\<close>

definition stageWidth :: real where
  "stageWidth = 6"

definition laneX :: "nat \<Rightarrow> nat \<Rightarrow> real" where
  "laneX stageCount index =
     (let d = real stageCount - 1;
          t = real index / (if d = 0 then 1 else d)
      in - stageWidth / 2 + t * stageWidth)"

text \<open>
  \<^verbatim>\<open>stageX\<close> is a plain object (\<^verbatim>\<open>{}\<close>), not a \<^verbatim>\<open>Map\<close>: its prototype is
  \<^verbatim>\<open>Object.prototype\<close>. The model keeps its own properties as a map from keys to
  numbers. An assignment \<^verbatim>\<open>stageX[id] = v\<close> creates or replaces the own property
  \<^verbatim>\<open>id\<close> (\<^verbatim>\<open>forEach\<close> assigns in stage order, so a later stage with the same id
  replaces the value of an earlier one), except for the key \<^verbatim>\<open>__proto__\<close>: that
  assignment calls the setter of \<^verbatim>\<open>Object.prototype.__proto__\<close>, which ignores a
  number, and no property is stored.
\<close>

definition stageX :: "Stage list \<Rightarrow> (string \<rightharpoonup> real)" where
  "stageX sts =
     (let stageIds = map id_s sts; stageCount = length stageIds
      in if stageCount > 0
         then foldl (\<lambda>m (index, i).
                       if i = ''__proto__'' then m else m(i \<mapsto> laneX stageCount index))
                Map.empty (enumerate 0 stageIds)
         else Map.empty)"

text \<open>
  A lookup \<^verbatim>\<open>stageX[k]\<close> finds an own property first; failing that, a member of
  \<^verbatim>\<open>Object.prototype\<close> when \<open>k\<close> names one (a function, or for \<^verbatim>\<open>__proto__\<close> the
  prototype object itself); failing that, \<^verbatim>\<open>undefined\<close>. \<open>objectPrototype\<close> lists
  the names of the members of \<^verbatim>\<open>Object.prototype\<close>.
\<close>

definition objectPrototype :: "string list" where
  "objectPrototype =
     [''constructor'', ''__defineGetter__'', ''__defineSetter__'', ''hasOwnProperty'',
      ''__lookupGetter__'', ''__lookupSetter__'', ''isPrototypeOf'',
      ''propertyIsEnumerable'', ''toString'', ''valueOf'', ''__proto__'',
      ''toLocaleString'']"

text \<open>
  The accessor given to \<^verbatim>\<open>d3.forceX\<close>: \<^verbatim>\<open>(d) => stageX[d.stage_id] || 0\<close>. Its
  value is a number, or the inherited member of \<^verbatim>\<open>Object.prototype\<close> named by the
  node's \<^verbatim>\<open>stage_id\<close> (an object or a function, hence truthy, so \<^verbatim>\<open>|| 0\<close> lets it
  through).
\<close>

datatype lane = Num real | Inherited string

definition targetX :: "(string \<rightharpoonup> real) \<Rightarrow> D3Node \<Rightarrow> lane" where
  "targetX sx d =
     (case sx (stage_id_n d) of
        Some v \<Rightarrow> if v \<noteq> 0 then Num v else Num 0
      | None \<Rightarrow>
          if stage_id_n d \<in> set objectPrototype then Inherited (stage_id_n d) else Num 0)"

text \<open>
  d3-force is a library outside the repository, so it is a parameter. A call either
  returns or throws; either way it has worked on the node objects in place, so both
  outcomes carry the node array as the call left it. \<open>forceSimulation\<close> stands for
  the whole chain \<^verbatim>\<open>d3.forceSimulation(d3Nodes).force("link", ...)...stop()\<close>, which
  receives the nodes, the links and the lane accessor; \<open>tick\<close> is
  \<^verbatim>\<open>simulation.tick()\<close> on the simulation state \<open>'s\<close>.
\<close>

datatype 's d3_outcome = Returns "D3Node list" 's | Throws "D3Node list"

record 's d3_force =
  forceSimulation :: "D3Node list \<Rightarrow> D3Link list \<Rightarrow> (D3Node \<Rightarrow> lane) \<Rightarrow> 's d3_outcome"
  tick :: "'s \<Rightarrow> D3Node list \<Rightarrow> 's d3_outcome"

fun nodes_of :: "'s d3_outcome \<Rightarrow> D3Node list" where
  "nodes_of (Returns ns _) = ns"
| "nodes_of (Throws ns) = ns"

text \<open>
  \<^verbatim>\<open>for (let i = 0; i < 300; i++) { simulation.tick();
  if (d3Nodes.length > 0 && !Number.isFinite(d3Nodes[0].x)) break; }\<close>,
  with the number of iterations left as the first argument.
\<close>

fun ticks :: "'s d3_force \<Rightarrow> nat \<Rightarrow> 's \<Rightarrow> D3Node list \<Rightarrow> 's d3_outcome" where
  "ticks d3 0 sim ns = Returns ns sim"
| "ticks d3 (Suc k) sim ns =
     (case tick d3 sim ns of
        Throws ns' \<Rightarrow> Throws ns'
      | Returns ns' sim' \<Rightarrow>
          (case ns' of
             [] \<Rightarrow> ticks d3 k sim' ns'
           | n # _ \<Rightarrow> if \<not> isFinite (x_d n) then Returns ns' sim' else ticks d3 k sim' ns'))"

text \<open>
  The body of the \<^verbatim>\<open>try\<close> block, for a graph \<open>d\<close> whose node array \<open>ns\<close> is not
  empty: \<^verbatim>\<open>edges\<close> is \<^verbatim>\<open>data.edges\<close> when that is an array and \<^verbatim>\<open>[]\<close> otherwise,
  \<^verbatim>\<open>stages\<close> is \<^verbatim>\<open>data.stages || []\<close>; the set-up, then the loop of 300 ticks.
\<close>

definition tryBlock ::
  "'s d3_force \<Rightarrow> (nat \<Rightarrow> real) \<Rightarrow> ExplainTrace \<Rightarrow> Node list \<Rightarrow> 's d3_outcome" where
  "tryBlock d3 random d ns =
     (let es = (case edges d of Some es \<Rightarrow> es | None \<Rightarrow> []);
          sts = (case stages d of Some sts \<Rightarrow> sts | None \<Rightarrow> [])
      in case forceSimulation d3 (d3Nodes random ns) (d3Links ns es) (targetX (stageX sts)) of
           Throws ns' \<Rightarrow> Throws ns'
         | Returns ns' sim \<Rightarrow> ticks d3 300 sim ns')"

text \<open>
  \<^verbatim>\<open>try { ... } catch (e) { console.warn(...) }\<close>: the handler only logs, and the
  code after it reads \<^verbatim>\<open>d3Nodes\<close> whichever way the block ended.
\<close>

definition simulated ::
  "'s d3_force \<Rightarrow> (nat \<Rightarrow> real) \<Rightarrow> ExplainTrace \<Rightarrow> Node list \<Rightarrow> D3Node list" where
  "simulated d3 random d ns =
     (case tryBlock d3 random d ns of Throws ns' \<Rightarrow> ns' | Returns ns' _ \<Rightarrow> ns')"

text \<open>The body of \<^verbatim>\<open>d3Nodes.forEach\<close>: the position computed for one node.\<close>

definition zSpread :: real where
  "zSpread = 1.5"

definition position :: "D3Node \<Rightarrow> Point3D" where
  "position node =
     (let x = (if isFinite (x_d node) then x_d node else Fin 0);
          y = (if isFinite (y_d node) then y_d node else Fin 0);
          x = Math_max (Fin (-50)) (Math_min (Fin 50) x);
          y = Math_max (Fin (-50)) (Math_min (Fin 50) y);
          indexVal = (case index_d node of
                        None \<Rightarrow> Fin 0
                      | Some v \<Rightarrow> if truthy v then v else Fin 0);
          pseudoRandomZ =
            jsub (jdiv (jrem (jmul indexVal (Fin 1337)) (Fin 100)) (Fin 100)) (Fin 0.5);
          z = (if isFinite pseudoRandomZ then jmul pseudoRandomZ (Fin zSpread) else Fin 0)
      in \<lparr>x_p = x, y_p = y, z_p = z\<rparr>)"

text \<open>
  \<^verbatim>\<open>nodePositions\<close> is a JavaScript \<^verbatim>\<open>Map\<close>: an association list in insertion
  order, where \<^verbatim>\<open>set\<close> on a key already present replaces its value in place.
\<close>

definition toPositions :: "D3Node list \<Rightarrow> (string \<times> Point3D) list" where
  "toPositions dns = foldl (\<lambda>m node. AList.update (id_n node) (position node) m) [] dns"

record Layout =
  nodePositions :: "(string \<times> Point3D) list"

definition layout :: "'s d3_force \<Rightarrow> (nat \<Rightarrow> real) \<Rightarrow> ExplainTrace option \<Rightarrow> Layout" where
  "layout d3 random data =
     (case data of
        None \<Rightarrow> \<lparr>nodePositions = []\<rparr>
      | Some d \<Rightarrow>
          (case nodes d of
             None \<Rightarrow> \<lparr>nodePositions = []\<rparr>
           | Some ns \<Rightarrow>
               if length ns = 0 then \<lparr>nodePositions = []\<rparr>
               else \<lparr>nodePositions = toPositions (simulated d3 random d ns)\<rparr>))"

section \<open>What is known of d3-force\<close>

text \<open>
  Two facts of d3-force that some properties of the layout rest on; they are hypotheses
  of the theorems that need them, never assumed silently. d3 works on the node objects
  it is given: it does not add or remove elements of the array and never writes a node's
  \<^verbatim>\<open>id\<close> (\<open>keeps_ids\<close>). Creating the simulation assigns each node its zero-based
  position in the array as \<^verbatim>\<open>index\<close>, before any force is set up, and a tick does not
  change it (\<open>numbers_nodes\<close>). Both speak of every outcome, a thrown exception included.
\<close>

definition keeps_ids :: "'s d3_force \<Rightarrow> bool" where
  "keeps_ids d3 \<longleftrightarrow>
     (\<forall>ns ls f. map id_n (nodes_of (forceSimulation d3 ns ls f)) = map id_n ns)
     \<and> (\<forall>sim ns. map id_n (nodes_of (tick d3 sim ns)) = map id_n ns)"

definition numbers_nodes :: "'s d3_force \<Rightarrow> bool" where
  "numbers_nodes d3 \<longleftrightarrow>
     (\<forall>ns ls f. map index_d (nodes_of (forceSimulation d3 ns ls f))
                 = map (\<lambda>i. Some (Fin (real i))) [0..<length ns])
     \<and> (\<forall>sim ns. map index_d (nodes_of (tick d3 sim ns)) = map index_d ns)"

section \<open>The rendered edges (VisualizedGraph, return)\<close>

text \<open>\<^verbatim>\<open>a < b\<close> on numbers: false when either is NaN.\<close>

fun jless :: "jsnum \<Rightarrow> jsnum \<Rightarrow> bool" where
  "jless NaN _ = False"
| "jless _ NaN = False"
| "jless (Fin a) (Fin b) = (a < b)"
| "jless NInf b = (b \<noteq> NInf)"
| "jless a PInf = (a \<noteq> PInf)"
| "jless _ _ = False"

text \<open>
  \<^verbatim>\<open>distance3D\<close>. The renderer calls it only after it has checked that all six
  coordinates are finite; on any other argument the model returns NaN.
\<close>

definition distance3D :: "Point3D \<Rightarrow> Point3D \<Rightarrow> jsnum" where
  "distance3D p1 p2 =
     (case (x_p p1, y_p p1, z_p p1, x_p p2, y_p p2, z_p p2) of
        (Fin x1, Fin y1, Fin z1, Fin x2, Fin y2, Fin z2) \<Rightarrow>
          Fin (sqrt ((x2 - x1) ^ 2 + (y2 - y1) ^ 2 + (z2 - z1) ^ 2))
      | _ \<Rightarrow> NaN)"

text \<open>The callback of \<^verbatim>\<open>data.edges.map\<close>: whether a \<^verbatim>\<open>Line\<close> is drawn for the edge.\<close>

definition edgeDrawn :: "Layout \<Rightarrow> Edge \<Rightarrow> bool" where
  "edgeDrawn l edge =
     (case map_of (nodePositions l) (source edge) of
        None \<Rightarrow> False
      | Some start \<Rightarrow>
          (case map_of (nodePositions l) (target edge) of
             None \<Rightarrow> False
           | Some end' \<Rightarrow>
               if \<not> isFinite (x_p start) \<or> \<not> isFinite (y_p start) \<or> \<not> isFinite (z_p start)
               then False
               else if \<not> isFinite (x_p end') \<or> \<not> isFinite (y_p end') \<or> \<not> isFinite (z_p end')
               then False
               else if jless (distance3D start end') (Fin 0.01) then False
               else True))"

text \<open>
  The edges the component draws: nothing when \<^verbatim>\<open>data\<close> is missing or the layout is
  empty (\<^verbatim>\<open>return null\<close>), nothing when \<^verbatim>\<open>data.edges\<close> is missing.
\<close>

definition renderedEdges :: "ExplainTrace option \<Rightarrow> Layout \<Rightarrow> Edge list" where
  "renderedEdges data l =
     (case data of
        None \<Rightarrow> []
      | Some d \<Rightarrow>
          if length (nodePositions l) = 0 then []
          else (case edges d of None \<Rightarrow> [] | Some es \<Rightarrow> filter (edgeDrawn l) es))"

section \<open>The entrance animation (VisualizedGraph, useEffect)\<close>

text \<open>
  \<^verbatim>\<open>d3.easeCubicOut\<close> is d3-ease's \<^verbatim>\<open>cubicOut\<close>:
  \<^verbatim>\<open>function cubicOut(t) { return --t * t * t + 1; }\<close>.
\<close>

definition easeCubicOut :: "real \<Rightarrow> real" where
  "easeCubicOut t = (t - 1) * (t - 1) * (t - 1) + 1"

text \<open>
  The state of one run of the effect: the closure variable \<^verbatim>\<open>start\<close> (\<open>None\<close> while
  it is \<^verbatim>\<open>undefined\<close>), the React state \<^verbatim>\<open>animationProgress\<close>, and whether a frame
  requested with \<^verbatim>\<open>requestAnimationFrame\<close> is pending. Timestamps are finite numbers
  (reals).
\<close>

record Animation =
  start :: "real option"
  animationProgress :: real
  pending :: bool

text \<open>The effect: \<^verbatim>\<open>setAnimationProgress(0)\<close> and the first request.\<close>

definition effect :: Animation where
  "effect = \<lparr>start = None, animationProgress = 0, pending = True\<rparr>"

text \<open>
  The callback \<^verbatim>\<open>animate(timestamp)\<close>, its argument written \<open>now\<close>. \<^verbatim>\<open>if (!start) start = timestamp\<close> takes the
  branch when \<^verbatim>\<open>start\<close> is \<^verbatim>\<open>undefined\<close> and also when it is the number 0, which is
  falsy.
\<close>

definition animate :: "real \<Rightarrow> Animation \<Rightarrow> Animation" where
  "animate now a =
     (let start' = (case start a of
                      None \<Rightarrow> now
                    | Some s \<Rightarrow> if s = 0 then now else s);
          progress = min ((now - start') / 1500) 1
      in \<lparr>start = Some start',
          animationProgress = easeCubicOut progress,
          pending = (progress < 1)\<rparr>)"

text \<open>
  A frame of the browser at time \<open>now\<close>: the callback runs if a request is
  pending. \<open>frames\<close> runs the frames of a list of timestamps in order. The clean-up of
  the effect cancels the pending request.
\<close>

definition frame :: "real \<Rightarrow> Animation \<Rightarrow> Animation" where
  "frame now a = (if pending a then animate now a else a)"

definition frames :: "real list \<Rightarrow> Animation \<Rightarrow> Animation" where
  "frames ts a = foldl (\<lambda>a t. frame t a) a ts"

definition cleanup :: "Animation \<Rightarrow> Animation" where
  "cleanup a = a\<lparr>pending := False\<rparr>"

section \<open>The layout on a store\<close>

text \<open>
  For what the layout does to the objects it is given, the graph lives in a store:
  a list of objects, an address being a position in the list, and a reference an
  address. Allocation appends. An \<^verbatim>\<open>ExplainTrace\<close> object refers to its three arrays
  (\<open>None\<close> for a missing one; the other fields, which the layout never reads, are kept as
  values), an array holds references to its elements, the \<^verbatim>\<open>Map\<close> of the result
  refers to its \<^verbatim>\<open>Point3D\<close> objects, and the returned object
  \<^verbatim>\<open>{ nodePositions }\<close> refers to the \<^verbatim>\<open>Map\<close>. Strings and numbers are values.
\<close>

datatype obj =
    TraceO "nat option" "nat option" "nat option" "string list" "string list" Confidence string
  | ArrayO "nat list"
  | StageO Stage
  | NodeO Node
  | EdgeO Edge
  | D3NodeO D3Node
  | D3LinkO D3Link
  | PointO Point3D
  | MapO "(string \<times> nat) list"
  | LayoutO nat

type_synonym store = "obj list"

definition deref :: "store \<Rightarrow> nat \<Rightarrow> obj option" where
  "deref h a = (if a < length h then Some (h ! a) else None)"

definition alloc :: "obj \<Rightarrow> store \<Rightarrow> store \<times> nat" where
  "alloc ob h = (h @ [ob], length h)"

definition allocs :: "obj list \<Rightarrow> store \<Rightarrow> store \<times> nat list" where
  "allocs obs h = (h @ obs, [length h..<length h + length obs])"

text \<open>
  Reading a graph out of the store. The result is \<open>None\<close> when the store does not hold
  a graph of the declared type at the address (a dangling reference, or an object of
  another kind where a stage, node or edge is expected).
\<close>

fun stageOf :: "obj \<Rightarrow> Stage option" where
  "stageOf (StageO s) = Some s"
| "stageOf _ = None"

fun nodeOf :: "obj \<Rightarrow> Node option" where
  "nodeOf (NodeO n) = Some n"
| "nodeOf _ = None"

fun edgeOf :: "obj \<Rightarrow> Edge option" where
  "edgeOf (EdgeO e) = Some e"
| "edgeOf _ = None"

definition readArray :: "store \<Rightarrow> (obj \<Rightarrow> 'a option) \<Rightarrow> nat \<Rightarrow> 'a list option" where
  "readArray h proj a =
     (case deref h a of
        Some (ArrayO rs) \<Rightarrow> those (map (\<lambda>r. Option.bind (deref h r) proj) rs)
      | _ \<Rightarrow> None)"

definition readField ::
  "store \<Rightarrow> (obj \<Rightarrow> 'a option) \<Rightarrow> nat option \<Rightarrow> 'a list option option" where
  "readField h proj f =
     (case f of None \<Rightarrow> Some None | Some a \<Rightarrow> map_option Some (readArray h proj a))"

definition readTrace :: "store \<Rightarrow> nat \<Rightarrow> ExplainTrace option" where
  "readTrace h a =
     (case deref h a of
        Some (TraceO fs fn fe st kf c t) \<Rightarrow>
          (case (readField h stageOf fs, readField h nodeOf fn, readField h edgeOf fe) of
             (Some ss, Some ns, Some es) \<Rightarrow>
               Some \<lparr>stages = ss, nodes = ns, edges = es, steps = st, key_factors = kf,
                     confidence = c, timestamp = t\<rparr>
           | _ \<Rightarrow> None)
      | _ \<Rightarrow> None)"

text \<open>The addresses of a graph: the trace object, its three arrays and their elements.\<close>

definition arrayCells :: "store \<Rightarrow> nat option \<Rightarrow> nat set" where
  "arrayCells h f =
     (case f of
        None \<Rightarrow> {}
      | Some a \<Rightarrow> insert a (case deref h a of Some (ArrayO rs) \<Rightarrow> set rs | _ \<Rightarrow> {}))"

definition traceCells :: "store \<Rightarrow> nat \<Rightarrow> nat set" where
  "traceCells h a =
     insert a (case deref h a of
                 Some (TraceO fs fn fe st kf c t) \<Rightarrow>
                   arrayCells h fs \<union> arrayCells h fn \<union> arrayCells h fe
               | _ \<Rightarrow> {})"

text \<open>
  The addresses of a layout result: the returned object, its \<^verbatim>\<open>Map\<close> and the
  \<^verbatim>\<open>Point3D\<close> objects the \<^verbatim>\<open>Map\<close> refers to; and the layout read out of the
  store.
\<close>

definition layoutCells :: "store \<Rightarrow> nat \<Rightarrow> nat set" where
  "layoutCells h r =
     insert r (case deref h r of
                 Some (LayoutO m) \<Rightarrow>
                   insert m (case deref h m of Some (MapO es) \<Rightarrow> snd ` set es | _ \<Rightarrow> {})
               | _ \<Rightarrow> {})"

fun pointOf :: "obj \<Rightarrow> Point3D option" where
  "pointOf (PointO p) = Some p"
| "pointOf _ = None"

definition readLayout :: "store \<Rightarrow> nat \<Rightarrow> Layout option" where
  "readLayout h r =
     (case deref h r of
        Some (LayoutO m) \<Rightarrow>
          (case deref h m of
             Some (MapO es) \<Rightarrow>
               map_option (\<lambda>ps. \<lparr>nodePositions = zip (map fst es) ps\<rparr>)
                 (those (map (\<lambda>(k, p). Option.bind (deref h p) pointOf) es))
           | _ \<Rightarrow> None)
      | _ \<Rightarrow> None)"

text \<open>\<^verbatim>\<open>return { nodePositions: new Map() }\<close>.\<close>

definition emptyLayout :: "store \<Rightarrow> store \<times> nat" where
  "emptyLayout h = (let (h1, m) = alloc (MapO []) h in alloc (LayoutO m) h1)"

text \<open>
  What d3 does to the store: it writes the node objects it was handed, in place. (It
  also writes the link objects it was handed, which nothing reads afterwards; these
  writes are left out.) The copies hold strings and numbers only, so no object of the
  graph can be reached from them.
\<close>

fun writeNodes :: "nat list \<Rightarrow> D3Node list \<Rightarrow> store \<Rightarrow> store" where
  "writeNodes (a # as) (n # ns) h = writeNodes as ns (h[a := D3NodeO n])"
| "writeNodes _ _ h = h"

text \<open>
  \<^verbatim>\<open>d3Nodes.forEach(node => { ...; nodePositions.set(node.id, { x, y, z }) })\<close> on the
  \<^verbatim>\<open>Map\<close> at address \<open>m\<close>: each call allocates a \<^verbatim>\<open>Point3D\<close> object and writes the
  \<^verbatim>\<open>Map\<close>.
\<close>

fun setPositions :: "nat \<Rightarrow> D3Node list \<Rightarrow> store \<Rightarrow> store" where
  "setPositions m [] h = h"
| "setPositions m (node # rest) h =
     (let (h1, p) = alloc (PointO (position node)) h;
          h2 = (case deref h1 m of
                  Some (MapO es) \<Rightarrow> h1[m := MapO (AList.update (id_n node) p es)]
                | _ \<Rightarrow> h1)
      in setPositions m rest h2)"

text \<open>
  The layout on the store \<open>h\<close>, for \<^verbatim>\<open>data\<close> a reference or \<^verbatim>\<open>null\<close> (\<open>None\<close>); it
  returns the store it leaves and the address of the object it returns. The steps are
  those of \<open>layout\<close>: \<^verbatim>\<open>nodes.map\<close> allocates the copies and their array,
  \<^verbatim>\<open>edges.filter(...).map(...)\<close> the link objects and their array; d3 works on the
  copies, which hold the nodes of \<open>simulated\<close> afterwards; \<^verbatim>\<open>new Map()\<close>, the
  \<^verbatim>\<open>forEach\<close> over the copies, and the returned object. (The \<^verbatim>\<open>Set\<close> of ids, the
  arrays of ids and the record \<^verbatim>\<open>stageX\<close> are local values.)
\<close>

definition layoutStore ::
  "'s d3_force \<Rightarrow> (nat \<Rightarrow> real) \<Rightarrow> store \<Rightarrow> nat option \<Rightarrow> (store \<times> nat) option" where
  "layoutStore d3 random h data =
     (case data of
        None \<Rightarrow> Some (emptyLayout h)
      | Some a \<Rightarrow>
          (case readTrace h a of
             None \<Rightarrow> None
           | Some d \<Rightarrow>
               (case nodes d of
                  None \<Rightarrow> Some (emptyLayout h)
                | Some ns \<Rightarrow>
                    if length ns = 0 then Some (emptyLayout h)
                    else
                      (let es = (case edges d of Some es \<Rightarrow> es | None \<Rightarrow> []);
                           (h1, nodeRefs) = allocs (map D3NodeO (d3Nodes random ns)) h;
                           (h2, nodeArray) = alloc (ArrayO nodeRefs) h1;
                           (h3, linkRefs) = allocs (map D3LinkO (d3Links ns es)) h2;
                           (h4, linkArray) = alloc (ArrayO linkRefs) h3;
                           h5 = writeNodes nodeRefs (simulated d3 random d ns) h4;
                           (h6, m) = alloc (MapO []) h5;
                           h7 = setPositions m (simulated d3 random d ns) h6
                       in Some (alloc (LayoutO m) h7)))))"

section \<open>Sample inputs\<close>

text \<open>
  Concrete inputs on which the theorems below are exercised: a graph of two stages, two
  nodes and two edges (one of them to a node that does not exist), a graph without nodes,
  a sequence of random draws, and behaviours of the d3 parameter.
\<close>

definition sample_trace :: ExplainTrace where
  "sample_trace =
     \<lparr>stages = Some [\<lparr>id_s = ''s1'', label_s = ''Parse'', description_s = [], weight_s = Fin 1\<rparr>,
                      \<lparr>id_s = ''s2'', label_s = ''Answer'', description_s = [], weight_s = Fin 1\<rparr>],
      nodes = Some [\<lparr>id_n = ''a'', label_n = ''A'', type_n = Intent, importance_n = Fin 1,
                      stage_id_n = ''s1''\<rparr>,
                    \<lparr>id_n = ''b'', label_n = ''B'', type_n = Conclusion, importance_n = NaN,
                      stage_id_n = ''s2''\<rparr>],
      edges = Some [\<lparr>source = ''a'', target = ''b'', relation_label = ''leads'',
                      strength = Fin 0.5\<rparr>,
                    \<lparr>source = ''a'', target = ''ghost'', relation_label = ''leads'',
                      strength = Fin 0.5\<rparr>],
      steps = [], key_factors = [], confidence = High, timestamp = ''t''\<rparr>"

definition empty_trace :: ExplainTrace where
  "empty_trace =
     \<lparr>stages = Some [], nodes = Some [], edges = Some [],
      steps = [], key_factors = [], confidence = Low, timestamp = ''t''\<rparr>"

definition sample_random :: "nat \<Rightarrow> real" where
  "sample_random k = real k / 10"

text \<open>A d3 whose set-up throws before it has touched a node.\<close>

definition d3_broken :: "unit d3_force" where
  "d3_broken = \<lparr>forceSimulation = (\<lambda>ns ls f. Throws ns), tick = (\<lambda>s ns. Throws ns)\<rparr>"

text \<open>
  A d3 that numbers the nodes at set-up, as d3-force does (\<^verbatim>\<open>node.index\<close> is the
  node's zero-based index into the array), and whose tick blows up: every x becomes NaN
  and every y infinite.
\<close>

definition number_nodes :: "D3Node list \<Rightarrow> D3Node list" where
  "number_nodes ns = map (\<lambda>(i, n). n\<lparr>index_d := Some (Fin (real i))\<rparr>) (enumerate 0 ns)"

definition d3_unstable :: "unit d3_force" where
  "d3_unstable =
     \<lparr>forceSimulation = (\<lambda>ns ls f. Returns (number_nodes ns) ()),
      tick = (\<lambda>s ns. Returns (map (\<lambda>n. n\<lparr>x_d := NaN, y_d := PInf\<rparr>) ns) ())\<rparr>"

text \<open>A single stage, and a graph in which the first and the last node share an id.\<close>

definition single_stage :: "Stage list" where
  "single_stage = [\<lparr>id_s = ''s1'', label_s = ''Only'', description_s = [], weight_s = Fin 1\<rparr>]"

definition shared_id_trace :: ExplainTrace where
  "shared_id_trace =
     \<lparr>stages = Some single_stage,
      nodes = Some [\<lparr>id_n = ''a'', label_n = ''first'', type_n = Fact, importance_n = Fin 1,
                      stage_id_n = ''s1''\<rparr>,
                    \<lparr>id_n = ''b'', label_n = ''B'', type_n = Fact, importance_n = Fin 1,
                      stage_id_n = ''s1''\<rparr>,
                    \<lparr>id_n = ''a'', label_n = ''last'', type_n = Fact, importance_n = Fin 1,
                      stage_id_n = ''none''\<rparr>],
      edges = None,
      steps = [], key_factors = [], confidence = Medium, timestamp = ''t''\<rparr>"

text \<open>
  A d3 that numbers the nodes at set-up, reads each node's lane target through the
  accessor (as a number: d3 applies \<^verbatim>\<open>+\<close> to the accessor's value, which gives NaN
  for an object or a function), and whose tick puts every node's x on its lane target
  and leaves y alone.
\<close>

fun toNumber :: "lane \<Rightarrow> jsnum" where
  "toNumber (Num v) = Fin v"
| "toNumber (Inherited _) = NaN"

fun settle :: "jsnum list \<Rightarrow> D3Node list \<Rightarrow> D3Node list" where
  "settle (t # ts) (n # ns) = n\<lparr>x_d := t\<rparr> # settle ts ns"
| "settle _ ns = ns"

definition d3_settling :: "jsnum list d3_force" where
  "d3_settling =
     \<lparr>forceSimulation = (\<lambda>ns ls f. Returns (number_nodes ns) (map (toNumber \<circ> f) ns)),
      tick = (\<lambda>ts ns. Returns (settle ts ns) ts)\<rparr>"

text \<open>
  A list of three stages in which the first and the last share an id, and a single stage
  whose id is \<^verbatim>\<open>__proto__\<close>.
\<close>

definition repeated_stages :: "Stage list" where
  "repeated_stages =
     [\<lparr>id_s = ''s1'', label_s = ''One'', description_s = [], weight_s = Fin 1\<rparr>,
      \<lparr>id_s = ''s2'', label_s = ''Two'', description_s = [], weight_s = Fin 1\<rparr>,
      \<lparr>id_s = ''s1'', label_s = ''One again'', description_s = [], weight_s = Fin 1\<rparr>]"

definition proto_stage :: "Stage list" where
  "proto_stage =
     [\<lparr>id_s = ''__proto__'', label_s = ''Odd'', description_s = [], weight_s = Fin 1\<rparr>]"

text \<open>
  A d3 that numbers the nodes at set-up and keeps, as its state, the links it was
  handed; its tick moves nothing.
\<close>

definition d3_recording :: "D3Link list d3_force" where
  "d3_recording =
     \<lparr>forceSimulation = (\<lambda>ns ls f. Returns (number_nodes ns) ls),
      tick = (\<lambda>ls ns. Returns ns ls)\<rparr>"

text \<open>A store that holds the sample graph at address 0.\<close>

definition sample_store :: store where
  "sample_store =
     [TraceO (Some 1) (Some 4) (Some 7) [] [] High ''t'',
      ArrayO [2, 3],
      StageO \<lparr>id_s = ''s1'', label_s = ''Parse'', description_s = [], weight_s = Fin 1\<rparr>,
      StageO \<lparr>id_s = ''s2'', label_s = ''Answer'', description_s = [], weight_s = Fin 1\<rparr>,
      ArrayO [5, 6],
      NodeO \<lparr>id_n = ''a'', label_n = ''A'', type_n = Intent, importance_n = Fin 1,
              stage_id_n = ''s1''\<rparr>,
      NodeO \<lparr>id_n = ''b'', label_n = ''B'', type_n = Conclusion, importance_n = NaN,
              stage_id_n = ''s2''\<rparr>,
      ArrayO [8, 9],
      EdgeO \<lparr>source = ''a'', target = ''b'', relation_label = ''leads'', strength = Fin 0.5\<rparr>,
      EdgeO \<lparr>source = ''a'', target = ''ghost'', relation_label = ''leads'',
              strength = Fin 0.5\<rparr>]"

section \<open>Numbers\<close>

lemma isFinite_iff: "isFinite v \<longleftrightarrow> (\<exists>a. v = Fin a)"
  by (cases v) simp_all

lemma jmul_Fin_finite: "isFinite v \<Longrightarrow> isFinite (jmul v (Fin s))"
  by (cases v) simp_all

lemma jrem_nat: "0 < k \<Longrightarrow> jrem (Fin (real m)) (Fin (real k)) = Fin (real (m mod k))"
proof -
  assume k: "0 < k"
  have "trunc (real m / real k) = int (m div k)"
    by (simp add: trunc_def floor_divide_of_nat_eq)
  moreover have "real m - real k * real (m div k) = real (m mod k)"
    by (metis add_diff_cancel_left' mult_div_mod_eq of_nat_add of_nat_mult)
  ultimately show ?thesis using k by simp
qed

lemma jless_sqrt: "0 \<le> c \<Longrightarrow> jless (Fin (sqrt x)) (Fin c) = (x < c\<^sup>2)"
  by (metis jless.simps(5) real_sqrt_less_iff real_sqrt_abs abs_of_nonneg)

section \<open>The sample behaviours of d3\<close>

lemma ticks_numeral:
  "ticks d3 (numeral v) sim ns =
     (case tick d3 sim ns of
        Throws ns' \<Rightarrow> Throws ns'
      | Returns ns' sim' \<Rightarrow>
          (case ns' of
             [] \<Rightarrow> ticks d3 (pred_numeral v) sim' ns'
           | n # _ \<Rightarrow> if \<not> isFinite (x_d n) then Returns ns' sim'
                      else ticks d3 (pred_numeral v) sim' ns'))"
  by (simp add: numeral_eq_Suc)

lemma ids_number_nodes: "map id_n (number_nodes ns) = map id_n ns"
proof -
  have "map id_n (map (\<lambda>(i, n). n\<lparr>index_d := Some (Fin (real i))\<rparr>) (enumerate k ns)) = map id_n ns"
    for k by (induction ns arbitrary: k) simp_all
  then show ?thesis by (simp add: number_nodes_def)
qed

lemma index_number_nodes:
  "map index_d (number_nodes ns) = map (\<lambda>i. Some (Fin (real i))) [0..<length ns]"
proof -
  have "map index_d (map (\<lambda>(i, n). n\<lparr>index_d := Some (Fin (real i))\<rparr>) (enumerate k ns))
          = map (\<lambda>i. Some (Fin (real i))) [k..<k + length ns]" for k
  proof (induction ns arbitrary: k)
    case Nil
    show ?case by simp
  next
    case (Cons n ns)
    have "[k..<k + length (n # ns)] = k # [Suc k..<Suc k + length ns]"
      by (subst upt_rec) simp
    with Cons [of "Suc k"] show ?case by (simp del: upt_Suc)
  qed
  from this [of 0] show ?thesis by (simp add: number_nodes_def)
qed

lemma ids_settle: "map id_n (settle ts ns) = map id_n ns"
  by (induction ts ns rule: settle.induct) simp_all

lemma index_settle: "map index_d (settle ts ns) = map index_d ns"
  by (induction ts ns rule: settle.induct) simp_all

lemma settle_twice: "settle ts (settle ts ns) = settle ts ns"
  by (induction ts ns rule: settle.induct) simp_all

lemma keeps_ids_settling: "keeps_ids d3_settling"
  by (simp add: keeps_ids_def d3_settling_def ids_number_nodes ids_settle)

lemma numbers_nodes_settling: "numbers_nodes d3_settling"
  by (simp add: numbers_nodes_def d3_settling_def index_number_nodes index_settle)

lemma ticks_settling:
  "ticks d3_settling k ts ns = Returns (if k = 0 then ns else settle ts ns) ts"
proof (induction k arbitrary: ns)
  case 0
  show ?case by simp
next
  case (Suc k)
  have t: "tick d3_settling ts ns = Returns (settle ts ns) ts"
    by (simp add: d3_settling_def)
  have h: "ticks d3_settling k ts (settle ts ns) = Returns (settle ts ns) ts"
    by (simp add: Suc settle_twice)
  show ?case
  proof (cases "settle ts ns")
    case Nil
    with h show ?thesis by (simp add: t)
  next
    case (Cons a as)
    with h show ?thesis by (simp add: t)
  qed
qed

lemma forceSimulation_settling:
  "forceSimulation d3_settling ns ls f = Returns (number_nodes ns) (map (toNumber \<circ> f) ns)"
  by (simp add: d3_settling_def)

lemma simulated_settling:
  "simulated d3_settling random d ns =
     (let dns = number_nodes (d3Nodes random ns);
          sts = (case stages d of Some sts \<Rightarrow> sts | None \<Rightarrow> [])
      in settle (map (toNumber \<circ> targetX (stageX sts)) (d3Nodes random ns)) dns)"
  by (simp add: simulated_def tryBlock_def forceSimulation_settling ticks_settling Let_def)

lemma keeps_ids_unstable: "keeps_ids d3_unstable"
  by (simp add: keeps_ids_def d3_unstable_def ids_number_nodes comp_def)

lemma numbers_nodes_unstable: "numbers_nodes d3_unstable"
  by (simp add: numbers_nodes_def d3_unstable_def index_number_nodes comp_def)

lemma keeps_ids_broken: "keeps_ids d3_broken"
  by (simp add: keeps_ids_def d3_broken_def)

lemma keeps_ids_recording: "keeps_ids d3_recording"
  by (simp add: keeps_ids_def d3_recording_def ids_number_nodes)

lemma ticks_recording: "ticks d3_recording k ls ns = Returns ns ls"
proof (induction k)
  case 0
  show ?case by simp
next
  case (Suc k)
  have "tick d3_recording ls ns = Returns ns ls" by (simp add: d3_recording_def)
  with Suc show ?case by (cases ns) simp_all
qed

lemma tryBlock_recording:
  "tryBlock d3_recording random d ns =
     Returns (number_nodes (d3Nodes random ns))
       (d3Links ns (case edges d of Some es \<Rightarrow> es | None \<Rightarrow> []))"
  by (simp add: tryBlock_def Let_def ticks_recording d3_recording_def [THEN arg_cong, of forceSimulation])

section \<open>The emitted positions\<close>

lemma position_x:
  "x_p (position node) = (case x_d node of Fin a \<Rightarrow> Fin (max (-50) (min 50 a)) | _ \<Rightarrow> Fin 0)"
  by (cases "x_d node") (simp_all add: position_def Let_def)

lemma position_y:
  "y_p (position node) = (case y_d node of Fin a \<Rightarrow> Fin (max (-50) (min 50 a)) | _ \<Rightarrow> Fin 0)"
  by (cases "y_d node") (simp_all add: position_def Let_def)

lemma position_z_finite: "isFinite (z_p (position node))"
  by (simp add: position_def Let_def jmul_Fin_finite)

lemma position_bounds:
  "\<exists>a b c. position node = \<lparr>x_p = Fin a, y_p = Fin b, z_p = Fin c\<rparr>
      \<and> -50 \<le> a \<and> a \<le> 50 \<and> -50 \<le> b \<and> b \<le> 50"
proof -
  obtain a where a: "x_p (position node) = Fin a" "-50 \<le> a" "a \<le> 50"
    by (cases "x_d node") (simp_all add: position_x)
  obtain b where b: "y_p (position node) = Fin b" "-50 \<le> b" "b \<le> 50"
    by (cases "y_d node") (simp_all add: position_y)
  obtain c where c: "z_p (position node) = Fin c"
    using position_z_finite [of node] by (auto simp: isFinite_iff)
  have "position node = \<lparr>x_p = Fin a, y_p = Fin b, z_p = Fin c\<rparr>"
    using a(1) b(1) c by (cases "position node") simp
  with a b show ?thesis by blast
qed

lemma map_of_foldl_update:
  "map_of (foldl (\<lambda>m node. AList.update (id_n node) (position node) m) m0 dns) k = Some p
   \<Longrightarrow> map_of m0 k = Some p \<or> (\<exists>node \<in> set dns. id_n node = k \<and> p = position node)"
proof (induction dns arbitrary: m0)
  case Nil
  then show ?case by simp
next
  case (Cons n dns)
  from Cons.IH [OF Cons.prems [simplified]]
  show ?case by (auto simp: update_conv' split: if_splits)
qed

lemma map_of_toPositions:
  "map_of (toPositions dns) k = Some p \<Longrightarrow> \<exists>node \<in> set dns. id_n node = k \<and> p = position node"
  using map_of_foldl_update [of "[]" dns k p] by (simp add: toPositions_def)

text \<open>
  C1. Whatever the graph, the random draws and the behaviour of d3 (returning or
  throwing, with finite or non-finite coordinates, with any \<^verbatim>\<open>index\<close> or none),
  every position in the layout result has three finite coordinates, x and y within
  [-50, 50]; the entry is the position computed from one of the simulated nodes with
  that id, and where the simulation left that node's x (or y) non-finite the emitted x
  (or y) is the fallback 0.
\<close>

theorem layout_positions_finite_clamped:
  assumes "map_of (nodePositions (layout d3 random data)) k = Some p"
  shows "(\<exists>a b c. p = \<lparr>x_p = Fin a, y_p = Fin b, z_p = Fin c\<rparr>
            \<and> -50 \<le> a \<and> a \<le> 50 \<and> -50 \<le> b \<and> b \<le> 50)
       \<and> (\<exists>d ns node. data = Some d \<and> nodes d = Some ns
            \<and> node \<in> set (simulated d3 random d ns) \<and> id_n node = k \<and> p = position node
            \<and> (\<not> isFinite (x_d node) \<longrightarrow> x_p p = Fin 0)
            \<and> (\<not> isFinite (y_d node) \<longrightarrow> y_p p = Fin 0))"
proof -
  from assms obtain d ns where d: "data = Some d" "nodes d = Some ns" "ns \<noteq> []"
    and m: "map_of (toPositions (simulated d3 random d ns)) k = Some p"
    by (auto simp: layout_def split: option.splits if_splits)
  from map_of_toPositions [OF m] obtain node
    where n: "node \<in> set (simulated d3 random d ns)" "id_n node = k" "p = position node"
    by blast
  have fx: "\<not> isFinite (x_d node) \<longrightarrow> x_p p = Fin 0"
    by (cases "x_d node") (simp_all add: n(3) position_x)
  have fy: "\<not> isFinite (y_d node) \<longrightarrow> y_p p = Fin 0"
    by (cases "y_d node") (simp_all add: n(3) position_y)
  from position_bounds [of node] n(3) d n fx fy show ?thesis by blast
qed

theorem layout_positions_finite_clamped_witness:
  "map_of (nodePositions (layout d3_unstable sample_random (Some sample_trace))) ''b''
     = Some \<lparr>x_p = Fin 0, y_p = Fin 0, z_p = Fin (-0.195)\<rparr>
   \<and> (\<exists>d ns node. Some sample_trace = Some d \<and> nodes d = Some ns
         \<and> node \<in> set (simulated d3_unstable sample_random d ns) \<and> id_n node = ''b''
         \<and> \<lparr>x_p = Fin 0, y_p = Fin 0, z_p = Fin (-0.195)\<rparr> = position node
         \<and> (\<not> isFinite (x_d node) \<longrightarrow> Fin 0 = Fin (0::real))
         \<and> (\<not> isFinite (y_d node) \<longrightarrow> Fin 0 = Fin (0::real)))"
proof -
  have h: "map_of (nodePositions (layout d3_unstable sample_random (Some sample_trace))) ''b''
       = Some \<lparr>x_p = Fin 0, y_p = Fin 0, z_p = Fin (-0.195)\<rparr>"
    by (simp add: layout_def sample_trace_def simulated_def tryBlock_def
        d3_unstable_def d3Nodes_def seedNode_def number_nodes_def ticks_numeral
        toPositions_def position_def Let_def sample_random_def trunc_def zSpread_def)
  from layout_positions_finite_clamped [OF h] h show ?thesis by simp
qed

section \<open>Graphs without nodes\<close>

text \<open>
  C4. When the graph is absent, its node array is absent (not an array) or empty, the
  layout is the empty mapping. This holds for every behaviour of d3, also one that
  throws: the function is total, and the only operation of the layout that can raise
  (the simulation, whose exception is the outcome \<open>Throws\<close>) is not reached.
\<close>

theorem empty_nodes_empty_layout:
  assumes "data = None \<or> (\<exists>d. data = Some d \<and> (nodes d = None \<or> nodes d = Some []))"
  shows "layout d3 random data = \<lparr>nodePositions = []\<rparr>"
  using assms by (auto simp: layout_def)

theorem empty_nodes_empty_layout_witness:
  "nodes empty_trace = Some []
   \<and> layout d3_broken sample_random (Some empty_trace) = \<lparr>nodePositions = []\<rparr>"
  using empty_nodes_empty_layout [of "Some empty_trace" d3_broken sample_random]
  by (simp add: empty_trace_def)

section \<open>Maps written in order\<close>

lemma foldl_upd_other:
  "\<forall>x \<in> set xs. f x \<noteq> k \<Longrightarrow> foldl (\<lambda>m x. m(f x \<mapsto> g x)) m0 xs k = m0 k"
  by (induction xs arbitrary: m0) auto

text \<open>The last write to a key is the one that stays.\<close>

lemma foldl_upd_last:
  assumes "j < length xs" and "\<forall>l. j < l \<and> l < length xs \<longrightarrow> f (xs ! l) \<noteq> f (xs ! j)"
  shows "foldl (\<lambda>m x. m(f x \<mapsto> g x)) m0 xs (f (xs ! j)) = Some (g (xs ! j))"
  using assms
proof (induction xs arbitrary: m0 j)
  case Nil
  then show ?case by simp
next
  case (Cons x xs)
  show ?case
  proof (cases j)
    case 0
    have "\<forall>y \<in> set xs. f y \<noteq> f x"
    proof
      fix y assume "y \<in> set xs"
      then obtain l where "l < length xs" "xs ! l = y" by (auto simp: in_set_conv_nth)
      with Cons.prems(2) [rule_format, of "Suc l"] 0 show "f y \<noteq> f x" by simp
    qed
    then have "foldl (\<lambda>m x. m(f x \<mapsto> g x)) (m0(f x \<mapsto> g x)) xs (f x) = (m0(f x \<mapsto> g x)) (f x)"
      by (rule foldl_upd_other)
    then have "foldl (\<lambda>m x. m(f x \<mapsto> g x)) m0 (x # xs) (f x) = Some (g x)"
      by (simp only: foldl_Cons fun_upd_same)
    with 0 show ?thesis by (simp only: nth_Cons_0)
  next
    case (Suc j')
    have "\<forall>l. j' < l \<and> l < length xs \<longrightarrow> f (xs ! l) \<noteq> f (xs ! j')"
    proof (intro allI impI)
      fix l assume "j' < l \<and> l < length xs"
      with Cons.prems(2) [rule_format, of "Suc l"] Suc show "f (xs ! l) \<noteq> f (xs ! j')" by simp
    qed
    with Cons.IH [of j'] Cons.prems(1) Suc show ?thesis by simp
  qed
qed

section \<open>Lane targets\<close>

text \<open>
  Writes in order where some elements are skipped: the last write to a key stays.
\<close>

lemma foldl_write_other:
  "\<forall>x \<in> set xs. f x \<noteq> k \<Longrightarrow>
   foldl (\<lambda>m x. if skip x then m else m(f x \<mapsto> g x)) m0 xs k = m0 k"
  by (induction xs arbitrary: m0) auto

lemma foldl_write_last:
  assumes "j < length xs" and "\<not> skip (xs ! j)"
    and "\<forall>l. j < l \<and> l < length xs \<longrightarrow> f (xs ! l) \<noteq> f (xs ! j)"
  shows "foldl (\<lambda>m x. if skip x then m else m(f x \<mapsto> g x)) m0 xs (f (xs ! j))
           = Some (g (xs ! j))"
  using assms
proof (induction xs arbitrary: m0 j)
  case Nil
  then show ?case by simp
next
  case (Cons x xs)
  let ?F = "\<lambda>m x. if skip x then m else m(f x \<mapsto> g x)"
  show ?case
  proof (cases j)
    case 0
    with Cons.prems(2) have ns: "\<not> skip x" by simp
    have "\<forall>y \<in> set xs. f y \<noteq> f x"
    proof
      fix y assume "y \<in> set xs"
      then obtain l where "l < length xs" "xs ! l = y" by (auto simp: in_set_conv_nth)
      with Cons.prems(3) [rule_format, of "Suc l"] 0 show "f y \<noteq> f x" by simp
    qed
    then have "foldl ?F (m0(f x \<mapsto> g x)) xs (f x) = (m0(f x \<mapsto> g x)) (f x)"
      by (rule foldl_write_other)
    then have "foldl ?F m0 (x # xs) (f x) = Some (g x)"
      using ns by (simp only: foldl_Cons fun_upd_same if_False)
    with 0 show ?thesis by (simp only: nth_Cons_0)
  next
    case (Suc j')
    have "\<forall>l. j' < l \<and> l < length xs \<longrightarrow> f (xs ! l) \<noteq> f (xs ! j')"
    proof (intro allI impI)
      fix l assume "j' < l \<and> l < length xs"
      with Cons.prems(3) [rule_format, of "Suc l"] Suc show "f (xs ! l) \<noteq> f (xs ! j')" by simp
    qed
    moreover from Cons.prems(2) Suc have "\<not> skip (xs ! j')" by simp
    ultimately have "foldl ?F (?F m0 x) xs (f (xs ! j')) = Some (g (xs ! j'))"
      using Cons.prems(1) Suc by (intro Cons.IH) simp_all
    with Suc show ?thesis by (simp only: foldl_Cons nth_Cons_Suc)
  qed
qed

lemma stageX_foldl:
  "sts \<noteq> [] \<Longrightarrow> stageX sts =
     foldl (\<lambda>m x. if snd x = ''__proto__'' then m else m(snd x \<mapsto> laneX (length sts) (fst x)))
       Map.empty (enumerate 0 (map id_s sts))"
  by (simp add: stageX_def Let_def split_def cong: if_cong)

lemma stageX_at:
  assumes "i < length sts"
    and "id_s (sts ! i) \<noteq> ''__proto__''"
    and "\<forall>l. i < l \<and> l < length sts \<longrightarrow> id_s (sts ! l) \<noteq> id_s (sts ! i)"
  shows "stageX sts (id_s (sts ! i)) = Some (laneX (length sts) i)"
proof -
  let ?xs = "enumerate 0 (map id_s sts)"
  have ne: "sts \<noteq> []" using assms(1) by auto
  have len: "i < length ?xs" using assms(1) by simp
  have at: "\<And>l. l < length sts \<Longrightarrow> ?xs ! l = (l, id_s (sts ! l))"
    by (simp add: nth_enumerate_eq)
  have "foldl (\<lambda>m x. if snd x = ''__proto__'' then m else m(snd x \<mapsto> laneX (length sts) (fst x)))
          Map.empty ?xs (snd (?xs ! i))
        = Some (laneX (length sts) (fst (?xs ! i)))"
    using len assms(1,2,3) by (intro foldl_write_last) (auto simp: at)
  then show ?thesis using assms(1) by (simp add: stageX_foldl [OF ne] at)
qed

lemma laneX_eq:
  "i < n \<Longrightarrow> laneX n i = (if n > 1 then -6/2 + (real i / (real n - 1)) * 6 else -6/2)"
  by (auto simp: laneX_def stageWidth_def)

text \<open>
  C2, as the code has it. With n stages, take the stage at index i whose id is not
  \<^verbatim>\<open>__proto__\<close> and is not borne by a later stage (both hold for every stage when
  the ids are distinct ordinary names). The lane target recorded for it is
  -W/2 + (i/(n-1)) W for n > 1, where W = 6. For n = 1 the divisor
  \<^verbatim>\<open>stageCount - 1 || 1\<close> is 1, so t = 0 and the target is -W/2 = -3, the left end of
  the band, not 0. That number is also what the accessor hands d3 for every node of the
  stage. Arithmetic is exact here (reals).
\<close>

theorem lane_targets:
  assumes "i < length sts"
    and "id_s (sts ! i) \<noteq> ''__proto__''"
    and "\<forall>l. i < l \<and> l < length sts \<longrightarrow> id_s (sts ! l) \<noteq> id_s (sts ! i)"
  shows "stageX sts (id_s (sts ! i)) =
           Some (if length sts > 1 then -6/2 + (real i / (real (length sts) - 1)) * 6
                 else -6/2)
       \<and> (\<forall>node. stage_id_n node = id_s (sts ! i) \<longrightarrow>
            targetX (stageX sts) node =
              Num (if length sts > 1 then -6/2 + (real i / (real (length sts) - 1)) * 6
                   else -6/2))"
proof -
  have "stageX sts (id_s (sts ! i)) = Some (laneX (length sts) i)"
    by (rule stageX_at [OF assms])
  then show ?thesis
    using laneX_eq [OF assms(1)] by (auto simp: targetX_def)
qed

theorem lane_targets_witness:
  "stageX (the (stages sample_trace)) ''s2'' = Some 3
   \<and> targetX (stageX (the (stages sample_trace)))
        (seedNode sample_random 1
           \<lparr>id_n = ''b'', label_n = ''B'', type_n = Conclusion, importance_n = NaN,
             stage_id_n = ''s2''\<rparr>) = Num 3"
proof -
  let ?sts = "the (stages sample_trace)"
  have 1: "1 < length ?sts" by (simp add: sample_trace_def)
  have 2: "id_s (?sts ! 1) \<noteq> ''__proto__''" by (simp add: sample_trace_def)
  have 3: "\<forall>l. 1 < l \<and> l < length ?sts \<longrightarrow> id_s (?sts ! l) \<noteq> id_s (?sts ! 1)"
    by (simp add: sample_trace_def)
  have 4: "id_s (?sts ! 1) = ''s2''" "length ?sts = 2" by (simp_all add: sample_trace_def)
  from lane_targets [OF 1 2 3] 4 show ?thesis by (simp add: seedNode_def)
qed

text \<open>
  The claim's single-stage case fails: one stage gets the target -3, and a node of that
  stage is pulled towards x = -3.
\<close>

theorem single_stage_counterexample:
  "length single_stage = 1
   \<and> stageX single_stage ''s1'' = Some (-3)
   \<and> stageX single_stage ''s1'' \<noteq> Some 0
   \<and> targetX (stageX single_stage) (seedNode sample_random 0
        \<lparr>id_n = ''a'', label_n = ''A'', type_n = Fact, importance_n = Fin 1,
          stage_id_n = ''s1''\<rparr>) = Num (-3)"
  by (simp add: single_stage_def stageX_def laneX_def stageWidth_def targetX_def seedNode_def)

text \<open>
  Why the two conditions: of two stages with the same id the later one's target stays
  (stages s1, s2, s1: the id s1 maps to 3, the target of index 2, not to -3, the target
  of index 0); and nothing is stored for the id \<^verbatim>\<open>__proto__\<close>, a node of that stage
  being handed the prototype object. A node whose \<^verbatim>\<open>stage_id\<close> names a member of
  \<^verbatim>\<open>Object.prototype\<close> and no stage is handed that member.
\<close>

lemma repeated_stage_id:
  "stageX repeated_stages ''s1'' = Some 3 \<and> laneX 3 0 = -3 \<and> laneX 3 2 = 3"
  by (simp add: repeated_stages_def stageX_def laneX_def stageWidth_def)

lemma proto_stage_id:
  "stageX proto_stage ''__proto__'' = None
   \<and> targetX (stageX proto_stage) (seedNode sample_random 0
        \<lparr>id_n = ''a'', label_n = ''A'', type_n = Fact, importance_n = Fin 1,
          stage_id_n = ''__proto__''\<rparr>) = Inherited ''__proto__''"
  by (simp add: proto_stage_def stageX_def targetX_def seedNode_def objectPrototype_def)

lemma inherited_member:
  "targetX (stageX single_stage) (seedNode sample_random 0
        \<lparr>id_n = ''a'', label_n = ''A'', type_n = Fact, importance_n = Fin 1,
          stage_id_n = ''toString''\<rparr>) = Inherited ''toString''"
  by (simp add: single_stage_def stageX_def targetX_def seedNode_def objectPrototype_def)

section \<open>The node array through the simulation\<close>

lemma ids_d3Nodes: "map id_n (d3Nodes random ns) = map id_n ns"
proof -
  have "map id_n (map (\<lambda>(i, n). seedNode random i n) (enumerate k ns)) = map id_n ns" for k
    by (induction ns arbitrary: k) (simp_all add: seedNode_def)
  then show ?thesis by (simp add: d3Nodes_def)
qed

lemma length_d3Nodes: "length (d3Nodes random ns) = length ns"
  by (simp add: d3Nodes_def)

lemma ids_ticks:
  assumes "keeps_ids d3"
  shows "map id_n (nodes_of (ticks d3 k sim ns)) = map id_n ns"
proof (induction k arbitrary: sim ns)
  case 0
  show ?case by simp
next
  case (Suc k)
  from assms have t: "map id_n (nodes_of (tick d3 sim ns)) = map id_n ns"
    by (simp add: keeps_ids_def)
  show ?case
  proof (cases "tick d3 sim ns")
    case (Throws ns')
    with t show ?thesis by simp
  next
    case (Returns ns' sim')
    with t have "map id_n ns' = map id_n ns" by simp
    with Returns Suc.IH [of sim' ns'] show ?thesis
      by (auto split: list.splits)
  qed
qed

lemma simulated_nodes_of: "simulated d3 random d ns = nodes_of (tryBlock d3 random d ns)"
  by (simp add: simulated_def split: d3_outcome.splits)

lemma ids_simulated:
  assumes "keeps_ids d3"
  shows "map id_n (simulated d3 random d ns) = map id_n ns"
proof -
  let ?es = "case edges d of Some es \<Rightarrow> es | None \<Rightarrow> []"
  let ?sts = "case stages d of Some sts \<Rightarrow> sts | None \<Rightarrow> []"
  let ?o = "forceSimulation d3 (d3Nodes random ns) (d3Links ns ?es) (targetX (stageX ?sts))"
  from assms have f: "map id_n (nodes_of ?o) = map id_n (d3Nodes random ns)"
    by (simp add: keeps_ids_def)
  show ?thesis
  proof (cases ?o)
    case (Throws ns')
    with f show ?thesis
      by (simp add: simulated_nodes_of tryBlock_def ids_d3Nodes)
  next
    case (Returns ns' sim)
    with f ids_ticks [OF assms, of 300 sim ns'] show ?thesis
      by (simp add: simulated_nodes_of tryBlock_def ids_d3Nodes)
  qed
qed

lemma length_simulated:
  assumes "keeps_ids d3"
  shows "length (simulated d3 random d ns) = length ns"
  using ids_simulated [OF assms, of random d ns] by (metis length_map)

lemma id_simulated_nth:
  assumes "keeps_ids d3" "i < length ns"
  shows "id_n (simulated d3 random d ns ! i) = id_n (ns ! i)"
proof -
  have "map id_n (simulated d3 random d ns) ! i = map id_n ns ! i"
    by (simp add: ids_simulated [OF assms(1)])
  then show ?thesis using assms(2) length_simulated [OF assms(1), of random d ns] by simp
qed

lemma index_ticks:
  assumes "numbers_nodes d3"
  shows "map index_d (nodes_of (ticks d3 k sim ns)) = map index_d ns"
proof (induction k arbitrary: sim ns)
  case 0
  show ?case by simp
next
  case (Suc k)
  from assms have t: "map index_d (nodes_of (tick d3 sim ns)) = map index_d ns"
    by (simp add: numbers_nodes_def)
  show ?case
  proof (cases "tick d3 sim ns")
    case (Throws ns')
    with t show ?thesis by simp
  next
    case (Returns ns' sim')
    with t have "map index_d ns' = map index_d ns" by simp
    with Returns Suc.IH [of sim' ns'] show ?thesis
      by (auto split: list.splits)
  qed
qed

lemma index_simulated:
  assumes "numbers_nodes d3"
  shows "map index_d (simulated d3 random d ns) = map (\<lambda>i. Some (Fin (real i))) [0..<length ns]"
proof -
  let ?es = "case edges d of Some es \<Rightarrow> es | None \<Rightarrow> []"
  let ?sts = "case stages d of Some sts \<Rightarrow> sts | None \<Rightarrow> []"
  let ?o = "forceSimulation d3 (d3Nodes random ns) (d3Links ns ?es) (targetX (stageX ?sts))"
  from assms have f: "map index_d (nodes_of ?o) = map (\<lambda>i. Some (Fin (real i))) [0..<length ns]"
    by (simp add: numbers_nodes_def length_d3Nodes)
  show ?thesis
  proof (cases ?o)
    case (Throws ns')
    with f show ?thesis
      by (simp add: simulated_nodes_of tryBlock_def)
  next
    case (Returns ns' sim)
    with f index_ticks [OF assms, of 300 sim ns'] show ?thesis
      by (simp add: simulated_nodes_of tryBlock_def)
  qed
qed

lemma index_simulated_nth:
  assumes "numbers_nodes d3" "keeps_ids d3" "i < length ns"
  shows "index_d (simulated d3 random d ns ! i) = Some (Fin (real i))"
proof -
  have "map index_d (simulated d3 random d ns) ! i = map (\<lambda>i. Some (Fin (real i))) [0..<length ns] ! i"
    by (simp add: index_simulated [OF assms(1)])
  then show ?thesis using assms(3) length_simulated [OF assms(2), of random d ns] by simp
qed

section \<open>The position map\<close>

lemma keys_foldl_update:
  "fst ` set (foldl (\<lambda>m node. AList.update (id_n node) (position node) m) m0 dns)
     = fst ` set m0 \<union> id_n ` set dns"
  by (induction dns arbitrary: m0) (auto simp: dom_update)

lemma keys_toPositions: "fst ` set (toPositions dns) = id_n ` set dns"
  by (simp add: toPositions_def keys_foldl_update)

lemma distinct_foldl_update:
  "distinct (map fst m0) \<Longrightarrow>
   distinct (map fst (foldl (\<lambda>m node. AList.update (id_n node) (position node) m) m0 dns))"
  by (induction dns arbitrary: m0) (simp_all add: distinct_update)

lemma distinct_toPositions: "distinct (map fst (toPositions dns))"
  by (simp add: toPositions_def distinct_foldl_update)

lemma map_of_foldl_update_eq:
  "map_of (foldl (\<lambda>m node. AList.update (id_n node) (position node) m) m0 dns)
     = foldl (\<lambda>m node. m(id_n node \<mapsto> position node)) (map_of m0) dns"
  by (induction dns arbitrary: m0) (simp_all add: update_conv')

lemma map_of_toPositions_last:
  assumes "j < length dns"
    and "\<forall>l. j < l \<and> l < length dns \<longrightarrow> id_n (dns ! l) \<noteq> id_n (dns ! j)"
  shows "map_of (toPositions dns) (id_n (dns ! j)) = Some (position (dns ! j))"
  using foldl_upd_last [OF assms, of position "map_of []"]
  by (simp add: toPositions_def map_of_foldl_update_eq)

lemma one_entry:
  assumes "distinct (map fst m)" and "map_of m k = Some v"
  shows "filter (\<lambda>e. fst e = k) m = [(k, v)]"
  using assms
proof (induction m)
  case Nil
  then show ?case by simp
next
  case (Cons e m)
  show ?case
  proof (cases "fst e = k")
    case True
    with Cons.prems have "e = (k, v)" by (cases e) simp
    moreover from True Cons.prems(1) have "k \<notin> fst ` set m" by simp
    then have "filter (\<lambda>e. fst e = k) m = []"
      unfolding filter_empty_conv by (metis imageI)
    ultimately show ?thesis by simp
  next
    case False
    with Cons show ?thesis by (cases e) auto
  qed
qed

lemma layout_nonempty:
  "nodes d = Some ns \<Longrightarrow> ns \<noteq> [] \<Longrightarrow>
   nodePositions (layout d3 random (Some d)) = toPositions (simulated d3 random d ns)"
  by (simp add: layout_def)

lemma entry_of_last:
  assumes "keeps_ids d3" and "nodes d = Some ns" and "i < length ns"
    and "\<forall>l. i < l \<and> l < length ns \<longrightarrow> id_n (ns ! l) \<noteq> id_n (ns ! i)"
  shows "map_of (nodePositions (layout d3 random (Some d))) (id_n (ns ! i))
           = Some (position (simulated d3 random d ns ! i))"
proof -
  let ?post = "simulated d3 random d ns"
  have ne: "ns \<noteq> []" using assms(3) by auto
  have len: "length ?post = length ns" by (rule length_simulated [OF assms(1)])
  have idp: "\<And>l. l < length ns \<Longrightarrow> id_n (?post ! l) = id_n (ns ! l)"
    by (rule id_simulated_nth [OF assms(1)])
  have "map_of (toPositions ?post) (id_n (?post ! i)) = Some (position (?post ! i))"
    using assms(3,4) len idp by (intro map_of_toPositions_last) auto
  then show ?thesis
    using idp [OF assms(3)] by (simp add: layout_nonempty [OF assms(2) ne])
qed

lemma layout_shared_id:
  "nodePositions (layout d3_settling sample_random (Some shared_id_trace)) =
     [(''a'', \<lparr>x_p = Fin 0, y_p = Fin 0, z_p = Fin 0.36\<rparr>),
      (''b'', \<lparr>x_p = Fin (- 3), y_p = Fin (- 2), z_p = Fin (-0.195)\<rparr>)]"
  by (simp add: layout_def simulated_settling shared_id_trace_def d3Nodes_def
      seedNode_def number_nodes_def single_stage_def stageX_def laneX_def stageWidth_def
      targetX_def objectPrototype_def sample_random_def toPositions_def position_def Let_def
      trunc_def zSpread_def)

lemma layout_sample:
  "nodePositions (layout d3_settling sample_random (Some sample_trace)) =
     [(''a'', \<lparr>x_p = Fin (- 3), y_p = Fin (- 4), z_p = Fin (-0.75)\<rparr>),
      (''b'', \<lparr>x_p = Fin 3, y_p = Fin (- 2), z_p = Fin (-0.195)\<rparr>)]"
  by (simp add: layout_def simulated_settling sample_trace_def d3Nodes_def
      seedNode_def number_nodes_def stageX_def laneX_def stageWidth_def
      targetX_def sample_random_def toPositions_def position_def Let_def trunc_def zSpread_def)

section \<open>Nodes that share an id\<close>

text \<open>
  C10. The layout holds exactly one entry for an id, and it is the position computed for
  the last node of the input array that bears the id: for the node at ordinal i with no
  later node of the same id, the entries of the result under that id are the single
  pair of the id and the position of the simulated node at ordinal i. In particular,
  when several nodes share an id, the earlier ones are overwritten. (d3 leaves ids alone.)
\<close>

theorem shared_id_last_wins:
  assumes "keeps_ids d3" and "nodes d = Some ns" and "i < length ns"
    and "\<forall>l. i < l \<and> l < length ns \<longrightarrow> id_n (ns ! l) \<noteq> id_n (ns ! i)"
  shows "filter (\<lambda>e. fst e = id_n (ns ! i)) (nodePositions (layout d3 random (Some d)))
           = [(id_n (ns ! i), position (simulated d3 random d ns ! i))]"
proof -
  let ?post = "simulated d3 random d ns"
  have ne: "ns \<noteq> []" using assms(3) by auto
  have len: "length ?post = length ns" by (rule length_simulated [OF assms(1)])
  have idp: "\<And>l. l < length ns \<Longrightarrow> id_n (?post ! l) = id_n (ns ! l)"
    by (rule id_simulated_nth [OF assms(1)])
  have "map_of (toPositions ?post) (id_n (?post ! i)) = Some (position (?post ! i))"
    using assms(3,4) len idp by (intro map_of_toPositions_last) auto
  then have "map_of (toPositions ?post) (id_n (ns ! i)) = Some (position (?post ! i))"
    using idp [OF assms(3)] by simp
  from one_entry [OF distinct_toPositions this]
  show ?thesis by (simp add: layout_nonempty [OF assms(2) ne])
qed

theorem shared_id_last_wins_witness:
  "filter (\<lambda>e. fst e = ''a'')
     (nodePositions (layout d3_settling sample_random (Some shared_id_trace)))
   = [(''a'', position (simulated d3_settling sample_random shared_id_trace
                          (the (nodes shared_id_trace)) ! 2))]
   \<and> label_n (simulated d3_settling sample_random shared_id_trace
                 (the (nodes shared_id_trace)) ! 2) = ''last''"
proof -
  let ?ns = "the (nodes shared_id_trace)"
  have n: "nodes shared_id_trace = Some ?ns" by (simp add: shared_id_trace_def)
  have i: "2 < length ?ns" by (simp add: shared_id_trace_def)
  have l: "\<forall>l. 2 < l \<and> l < length ?ns \<longrightarrow> id_n (?ns ! l) \<noteq> id_n (?ns ! 2)"
    by (simp add: shared_id_trace_def)
  have a: "id_n (?ns ! 2) = ''a''" by (simp add: shared_id_trace_def)
  have "label_n (simulated d3_settling sample_random shared_id_trace ?ns ! 2) = ''last''"
    by (simp add: simulated_settling shared_id_trace_def d3Nodes_def seedNode_def
        number_nodes_def)
  with shared_id_last_wins [OF keeps_ids_settling n i l, of sample_random] a
  show ?thesis by simp
qed

section \<open>Depth from the ordinal\<close>

lemma position_z_index:
  assumes "index_d node = Some (Fin (real i))"
  shows "z_p (position node) = Fin ((real ((i * 1337) mod 100) / 100 - 0.5) * 1.5)"
proof -
  define iv where
    "iv = (case index_d node of None \<Rightarrow> Fin 0 | Some v \<Rightarrow> if truthy v then v else Fin 0)"
  define prz where
    "prz = jsub (jdiv (jrem (jmul iv (Fin 1337)) (Fin 100)) (Fin 100)) (Fin 0.5)"
  have z: "z_p (position node) = (if isFinite prz then jmul prz (Fin zSpread) else Fin 0)"
    unfolding prz_def iv_def position_def Let_def by simp
  have iv: "iv = Fin (real i)"
    using assms by (simp add: iv_def)
  have "jmul iv (Fin 1337) = Fin (real (i * 1337))"
    by (simp add: iv)
  moreover have "jrem (Fin (real (i * 1337))) (Fin 100) = Fin (real ((i * 1337) mod 100))"
    using jrem_nat [of 100 "i * 1337"] by simp
  ultimately have "prz = Fin (real ((i * 1337) mod 100) / 100 - 0.5)"
    unfolding prz_def by (simp only: jdiv.simps jsub.simps) simp
  then show ?thesis by (simp add: z zSpread_def)
qed

text \<open>
  C7. For a d3 that numbers the nodes as d3-force does, the entry of the node at ordinal
  i (the last node bearing its id) has z = (((i * 1337) mod 100) / 100 - 0.5) * 1.5:
  a function of the ordinal alone. Hence a second run on the same node array, with any
  other random draws and any other such behaviour of d3, gives that node the same z.
  Arithmetic is exact here (reals).
\<close>

theorem depth_from_ordinal:
  assumes "keeps_ids d3" and "numbers_nodes d3"
    and "keeps_ids d3'" and "numbers_nodes d3'"
    and "nodes d = Some ns" and "i < length ns"
    and "\<forall>l. i < l \<and> l < length ns \<longrightarrow> id_n (ns ! l) \<noteq> id_n (ns ! i)"
  shows "\<exists>p p'. map_of (nodePositions (layout d3 random (Some d))) (id_n (ns ! i)) = Some p
           \<and> map_of (nodePositions (layout d3' random' (Some d))) (id_n (ns ! i)) = Some p'
           \<and> z_p p = Fin ((real ((i * 1337) mod 100) / 100 - 0.5) * 1.5)
           \<and> z_p p' = z_p p"
proof -
  let ?p = "position (simulated d3 random d ns ! i)"
  let ?p' = "position (simulated d3' random' d ns ! i)"
  have "map_of (nodePositions (layout d3 random (Some d))) (id_n (ns ! i)) = Some ?p"
    by (rule entry_of_last [OF assms(1,5,6,7)])
  moreover have "map_of (nodePositions (layout d3' random' (Some d))) (id_n (ns ! i)) = Some ?p'"
    by (rule entry_of_last [OF assms(3,5,6,7)])
  moreover have "z_p ?p = Fin ((real ((i * 1337) mod 100) / 100 - 0.5) * 1.5)"
    by (rule position_z_index [OF index_simulated_nth [OF assms(2,1,6)]])
  moreover have "z_p ?p' = Fin ((real ((i * 1337) mod 100) / 100 - 0.5) * 1.5)"
    by (rule position_z_index [OF index_simulated_nth [OF assms(4,3,6)]])
  ultimately show ?thesis by simp
qed

theorem depth_from_ordinal_witness:
  "\<exists>p p'. map_of (nodePositions (layout d3_settling sample_random (Some sample_trace))) ''b''
             = Some p
     \<and> map_of (nodePositions (layout d3_unstable (\<lambda>k. 0) (Some sample_trace))) ''b'' = Some p'
     \<and> z_p p = Fin (-0.195) \<and> z_p p' = z_p p"
proof -
  let ?ns = "the (nodes sample_trace)"
  have n: "nodes sample_trace = Some ?ns" by (simp add: sample_trace_def)
  have i: "1 < length ?ns" by (simp add: sample_trace_def)
  have l: "\<forall>l. 1 < l \<and> l < length ?ns \<longrightarrow> id_n (?ns ! l) \<noteq> id_n (?ns ! 1)"
    by (simp add: sample_trace_def)
  have b: "id_n (?ns ! 1) = ''b''" by (simp add: sample_trace_def)
  from depth_from_ordinal [OF keeps_ids_settling numbers_nodes_settling
      keeps_ids_unstable numbers_nodes_unstable n i l, of sample_random "\<lambda>k. 0"] b
  show ?thesis by simp
qed

section \<open>An exception in the simulation\<close>

text \<open>
  C3, as the code has it. The exception is caught, and the handler only logs: the layout
  is then built from the node array as the failed call left it. For a graph with nodes
  the result is therefore not empty: it has an entry for every node id of the input.
\<close>

theorem exception_keeps_positions:
  assumes "keeps_ids d3" and "nodes d = Some ns" and "ns \<noteq> []"
    and "tryBlock d3 random d ns = Throws post"
  shows "nodePositions (layout d3 random (Some d)) = toPositions post
       \<and> nodePositions (layout d3 random (Some d)) \<noteq> []
       \<and> fst ` set (nodePositions (layout d3 random (Some d))) = id_n ` set ns"
proof -
  have post: "simulated d3 random d ns = post"
    using assms(4) by (simp add: simulated_def)
  have eq: "nodePositions (layout d3 random (Some d)) = toPositions post"
    by (simp add: layout_nonempty [OF assms(2,3)] post)
  have "set (map id_n post) = set (map id_n ns)"
    using ids_simulated [OF assms(1), of random d ns] post by simp
  then have keys: "fst ` set (toPositions post) = id_n ` set ns"
    by (simp add: keys_toPositions)
  moreover from keys assms(3) have "toPositions post \<noteq> []" by auto
  ultimately show ?thesis using eq by simp
qed

theorem exception_keeps_positions_witness:
  "tryBlock d3_broken sample_random sample_trace (the (nodes sample_trace))
     = Throws (d3Nodes sample_random (the (nodes sample_trace)))
   \<and> nodePositions (layout d3_broken sample_random (Some sample_trace))
       = toPositions (d3Nodes sample_random (the (nodes sample_trace)))
   \<and> nodePositions (layout d3_broken sample_random (Some sample_trace)) \<noteq> []
   \<and> fst ` set (nodePositions (layout d3_broken sample_random (Some sample_trace)))
       = {''a'', ''b''}"
proof -
  let ?ns = "the (nodes sample_trace)"
  have n: "nodes sample_trace = Some ?ns" by (simp add: sample_trace_def)
  have ne: "?ns \<noteq> []" by (simp add: sample_trace_def)
  have t: "tryBlock d3_broken sample_random sample_trace ?ns
             = Throws (d3Nodes sample_random ?ns)"
    by (simp add: tryBlock_def d3_broken_def)
  have k: "id_n ` set ?ns = {''a'', ''b''}" by (simp add: sample_trace_def)
  show ?thesis
    unfolding k [symmetric]
    using exception_keeps_positions [OF keeps_ids_broken n ne t] t by blast
qed

text \<open>
  The claim fails: on the sample graph, with a d3 that throws at set-up, the layout is
  not empty; both nodes are placed at their (clamped) seed positions.
\<close>

theorem exception_counterexample:
  "tryBlock d3_broken sample_random sample_trace (the (nodes sample_trace))
     = Throws (d3Nodes sample_random (the (nodes sample_trace)))
   \<and> nodePositions (layout d3_broken sample_random (Some sample_trace))
       = [(''a'', \<lparr>x_p = Fin (- 5), y_p = Fin (- 4), z_p = Fin (-0.75)\<rparr>),
          (''b'', \<lparr>x_p = Fin (- 3), y_p = Fin (- 2), z_p = Fin (-0.75)\<rparr>)]
   \<and> nodePositions (layout d3_broken sample_random (Some sample_trace)) \<noteq> []"
  by (simp add: layout_def simulated_def tryBlock_def d3_broken_def sample_trace_def
      d3Nodes_def seedNode_def sample_random_def toPositions_def position_def Let_def
      trunc_def zSpread_def)

section \<open>Seed positions\<close>





section \<open>Edges to missing nodes\<close>

lemma keys_layout:
  assumes "keeps_ids d3"
  shows "fst ` set (nodePositions (layout d3 random (Some d)))
           \<subseteq> id_n ` set (case nodes d of None \<Rightarrow> [] | Some ns \<Rightarrow> ns)"
proof (cases "nodes d")
  case None
  then show ?thesis by (simp add: layout_def)
next
  case (Some ns)
  have "set (map id_n (simulated d3 random d ns)) = set (map id_n ns)"
    by (simp only: ids_simulated [OF assms])
  then show ?thesis using Some by (simp add: layout_def keys_toPositions)
qed

lemma edgeDrawn_endpoints:
  "edgeDrawn l e \<Longrightarrow>
   source e \<in> fst ` set (nodePositions l) \<and> target e \<in> fst ` set (nodePositions l)"
  by (auto simp: edgeDrawn_def split: option.splits dest: map_of_SomeD intro: rev_image_eqI)

lemma linkEdges_removeAll:
  "source e \<notin> id_n ` set ns \<or> target e \<notin> id_n ` set ns \<Longrightarrow>
   linkEdges ns (removeAll e es) = linkEdges ns es"
  by (induction es) (auto simp: linkEdges_def)

lemma d3Links_removeAll:
  "source e \<notin> id_n ` set ns \<or> target e \<notin> id_n ` set ns \<Longrightarrow>
   d3Links ns (removeAll e es) = d3Links ns es"
  by (simp add: d3Links_def linkEdges_removeAll)

lemma tryBlock_without:
  assumes "es = (case edges d of None \<Rightarrow> [] | Some es \<Rightarrow> es)"
    and "source e \<notin> id_n ` set ns \<or> target e \<notin> id_n ` set ns"
  shows "tryBlock d3 random (d\<lparr>edges := Some (removeAll e es)\<rparr>) ns = tryBlock d3 random d ns"
proof -
  have "(case edges d of Some es \<Rightarrow> es | None \<Rightarrow> []) = es"
    using assms(1) by (simp split: option.splits)
  then show ?thesis
    by (simp add: tryBlock_def d3Links_removeAll [OF assms(2)])
qed

lemma layout_without:
  assumes "ns = (case nodes d of None \<Rightarrow> [] | Some ns \<Rightarrow> ns)"
    and "es = (case edges d of None \<Rightarrow> [] | Some es \<Rightarrow> es)"
    and "source e \<notin> id_n ` set ns \<or> target e \<notin> id_n ` set ns"
  shows "layout d3 random (Some (d\<lparr>edges := Some (removeAll e es)\<rparr>)) = layout d3 random (Some d)"
proof (cases "nodes d")
  case None
  then show ?thesis by (simp add: layout_def)
next
  case (Some ns')
  with assms(1) have "ns' = ns" by simp
  with Some tryBlock_without [OF assms(2,3), of d3 random] show ?thesis
    by (simp add: layout_def simulated_def)
qed

text \<open>
  C5. An edge whose source or target is not the id of a node of the graph is removed by
  the filter that builds the links, before the simulation is set up: no link handed to
  d3 has its endpoints, and for every behaviour of d3 the outcome of the try block
  (the nodes and the state of the simulation) and the layout are those of the graph
  without that edge. The component never draws the edge: its endpoint has no entry in
  the layout. (d3 leaves ids alone; a missing node or edge array counts as empty.)
\<close>

theorem dangling_edge_dropped:
  assumes "keeps_ids d3"
    and "ns = (case nodes d of None \<Rightarrow> [] | Some ns \<Rightarrow> ns)"
    and "es = (case edges d of None \<Rightarrow> [] | Some es \<Rightarrow> es)"
    and "source e \<notin> id_n ` set ns \<or> target e \<notin> id_n ` set ns"
  shows "e \<notin> set (linkEdges ns es)
       \<and> (\<forall>l \<in> set (d3Links ns es). (source_l l, target_l l) \<noteq> (source e, target e))
       \<and> tryBlock d3 random d ns = tryBlock d3 random (d\<lparr>edges := Some (removeAll e es)\<rparr>) ns
       \<and> layout d3 random (Some d) = layout d3 random (Some (d\<lparr>edges := Some (removeAll e es)\<rparr>))
       \<and> e \<notin> set (renderedEdges (Some d) (layout d3 random (Some d)))"
proof -
  have 1: "e \<notin> set (linkEdges ns es)"
    using assms(4) by (auto simp: linkEdges_def)
  have 2: "\<forall>l \<in> set (d3Links ns es). (source_l l, target_l l) \<noteq> (source e, target e)"
    using assms(4) by (auto simp: d3Links_def linkEdges_def)
  have 3: "e \<notin> set (renderedEdges (Some d) (layout d3 random (Some d)))"
  proof
    assume "e \<in> set (renderedEdges (Some d) (layout d3 random (Some d)))"
    then have "edgeDrawn (layout d3 random (Some d)) e"
      by (auto simp: renderedEdges_def split: if_splits option.splits)
    from edgeDrawn_endpoints [OF this] keys_layout [OF assms(1), of random d] assms(2,4)
    show False by auto
  qed
  from 1 2 3 tryBlock_without [OF assms(3,4), of d3 random]
    layout_without [OF assms(2,3,4), of d3 random]
  show ?thesis by simp
qed

text \<open>
  On the sample graph, a d3 that records the links it is handed records the one link
  from a to b.
\<close>

theorem dangling_edge_dropped_witness:
  "\<lparr>source = ''a'', target = ''ghost'', relation_label = ''leads'', strength = Fin 0.5\<rparr>
     \<in> set (the (edges sample_trace))
   \<and> \<lparr>source = ''a'', target = ''ghost'', relation_label = ''leads'', strength = Fin 0.5\<rparr>
     \<notin> set (linkEdges (the (nodes sample_trace)) (the (edges sample_trace)))
   \<and> tryBlock d3_recording sample_random sample_trace (the (nodes sample_trace))
       = tryBlock d3_recording sample_random
           (sample_trace\<lparr>edges := Some [\<lparr>source = ''a'', target = ''b'',
              relation_label = ''leads'', strength = Fin 0.5\<rparr>]\<rparr>)
           (the (nodes sample_trace))
   \<and> tryBlock d3_recording sample_random sample_trace (the (nodes sample_trace))
       = Returns (number_nodes (d3Nodes sample_random (the (nodes sample_trace))))
           [\<lparr>source_l = ''a'', target_l = ''b'', strength_l = Fin 0.5\<rparr>]
   \<and> \<lparr>source = ''a'', target = ''ghost'', relation_label = ''leads'', strength = Fin 0.5\<rparr>
     \<notin> set (renderedEdges (Some sample_trace)
               (layout d3_recording sample_random (Some sample_trace)))"
proof -
  let ?e = "\<lparr>source = ''a'', target = ''ghost'', relation_label = ''leads'', strength = Fin 0.5\<rparr>"
  have n: "the (nodes sample_trace) = (case nodes sample_trace of None \<Rightarrow> [] | Some ns \<Rightarrow> ns)"
    by (simp add: sample_trace_def)
  have e: "the (edges sample_trace) = (case edges sample_trace of None \<Rightarrow> [] | Some es \<Rightarrow> es)"
    by (simp add: sample_trace_def)
  have g: "source ?e \<notin> id_n ` set (the (nodes sample_trace))
           \<or> target ?e \<notin> id_n ` set (the (nodes sample_trace))"
    by (simp add: sample_trace_def)
  have m: "?e \<in> set (the (edges sample_trace))" by (simp add: sample_trace_def)
  have r: "removeAll ?e (the (edges sample_trace))
             = [\<lparr>source = ''a'', target = ''b'', relation_label = ''leads'', strength = Fin 0.5\<rparr>]"
    by (simp add: sample_trace_def)
  have t: "tryBlock d3_recording sample_random sample_trace (the (nodes sample_trace))
       = Returns (number_nodes (d3Nodes sample_random (the (nodes sample_trace))))
           [\<lparr>source_l = ''a'', target_l = ''b'', strength_l = Fin 0.5\<rparr>]"
    by (simp add: tryBlock_recording) (simp add: sample_trace_def d3Links_def linkEdges_def)
  from dangling_edge_dropped [OF keeps_ids_recording n e g, of sample_random] m t
  show ?thesis unfolding r by blast
qed

lemma rendered_sample:
  "renderedEdges (Some sample_trace) (layout d3_settling sample_random (Some sample_trace))
     = [\<lparr>source = ''a'', target = ''b'', relation_label = ''leads'', strength = Fin 0.5\<rparr>]"
proof -
  have e: "edges sample_trace =
      Some [\<lparr>source = ''a'', target = ''b'', relation_label = ''leads'', strength = Fin 0.5\<rparr>,
            \<lparr>source = ''a'', target = ''ghost'', relation_label = ''leads'', strength = Fin 0.5\<rparr>]"
    by (simp add: sample_trace_def)
  show ?thesis
    by (simp add: renderedEdges_def e edgeDrawn_def layout_sample distance3D_def jless_sqrt
        power2_eq_square del: jless.simps)
qed

section \<open>The store: reading a graph\<close>

lemma deref_Some: "deref h a = Some ob \<longleftrightarrow> a < length h \<and> h ! a = ob"
  by (auto simp: deref_def)

lemma deref_prefix:
  "take (length h) h' = h \<Longrightarrow> deref h a = Some ob \<Longrightarrow> deref h' a = Some ob"
  by (metis deref_Some length_take min_less_iff_conj nth_take)

lemma deref_prefix_eq:
  "take (length h) h' = h \<Longrightarrow> c < length h \<Longrightarrow> deref h' c = deref h c"
  by (metis deref_Some deref_def deref_prefix)

lemma those_cong_Some:
  "those (map f rs) = Some xs \<Longrightarrow> (\<forall>r \<in> set rs. f r \<noteq> None \<longrightarrow> g r = f r)
   \<Longrightarrow> those (map g rs) = Some xs"
  by (induction rs arbitrary: xs) (auto split: option.splits)

lemma those_Some_all: "those (map f rs) = Some xs \<Longrightarrow> \<forall>r \<in> set rs. f r \<noteq> None"
  by (induction rs arbitrary: xs) (auto split: option.splits)

lemma readArray_prefix:
  assumes "take (length h) h' = h" and "readArray h proj a = Some xs"
  shows "readArray h' proj a = Some xs"
proof -
  from assms(2) obtain rs where a: "deref h a = Some (ArrayO rs)"
    and t: "those (map (\<lambda>r. Option.bind (deref h r) proj) rs) = Some xs"
    by (auto simp: readArray_def split: option.splits obj.splits)
  have "\<forall>r \<in> set rs. Option.bind (deref h r) proj \<noteq> None
          \<longrightarrow> Option.bind (deref h' r) proj = Option.bind (deref h r) proj"
    using deref_prefix [OF assms(1)] by (auto simp: bind_eq_Some_conv)
  from those_cong_Some [OF t this] deref_prefix [OF assms(1) a]
  show ?thesis by (simp add: readArray_def)
qed

lemma readField_prefix:
  "take (length h) h' = h \<Longrightarrow> readField h proj f = Some v \<Longrightarrow> readField h' proj f = Some v"
  by (auto simp: readField_def split: option.splits dest: readArray_prefix)

lemma readTrace_prefix:
  assumes "take (length h) h' = h" and "readTrace h a = Some d"
  shows "readTrace h' a = Some d"
proof -
  from assms(2) obtain fs fn fe st kf c t ss ns es
    where a: "deref h a = Some (TraceO fs fn fe st kf c t)"
      and f: "readField h stageOf fs = Some ss" "readField h nodeOf fn = Some ns"
             "readField h edgeOf fe = Some es"
      and d: "d = \<lparr>stages = ss, nodes = ns, edges = es, steps = st, key_factors = kf,
                   confidence = c, timestamp = t\<rparr>"
    by (auto simp: readTrace_def split: option.splits obj.splits)
  from deref_prefix [OF assms(1) a] f [THEN readField_prefix [OF assms(1)]] d
  show ?thesis by (simp add: readTrace_def)
qed

lemma readArray_cells:
  assumes "readArray h proj a = Some xs"
  shows "a < length h \<and> (\<exists>rs. deref h a = Some (ArrayO rs) \<and> (\<forall>r \<in> set rs. r < length h))"
proof -
  from assms obtain rs where a: "deref h a = Some (ArrayO rs)"
    and t: "those (map (\<lambda>r. Option.bind (deref h r) proj) rs) = Some xs"
    by (auto simp: readArray_def split: option.splits obj.splits)
  from those_Some_all [OF t] have "\<forall>r \<in> set rs. r < length h"
    by (auto simp: deref_def split: if_splits)
  with a show ?thesis by (auto simp: deref_Some)
qed

lemma arrayCells_bound:
  "readField h proj f = Some v \<Longrightarrow> \<forall>c \<in> arrayCells h f. c < length h"
  by (auto simp: readField_def arrayCells_def split: option.splits dest!: readArray_cells)

lemma traceCells_bound:
  assumes "readTrace h a = Some d"
  shows "\<forall>c \<in> traceCells h a. c < length h"
proof -
  from assms obtain fs fn fe st kf c t ss ns es
    where a: "deref h a = Some (TraceO fs fn fe st kf c t)"
      and f: "readField h stageOf fs = Some ss" "readField h nodeOf fn = Some ns"
             "readField h edgeOf fe = Some es"
    by (auto simp: readTrace_def split: option.splits obj.splits)
  from a have "a < length h" by (simp add: deref_Some)
  with a f [THEN arrayCells_bound] show ?thesis
    by (auto simp: traceCells_def)
qed

lemma arrayCells_prefix:
  assumes "take (length h) h' = h" and "readField h proj f = Some v"
  shows "arrayCells h' f = arrayCells h f"
proof (cases f)
  case None
  then show ?thesis by (simp add: arrayCells_def)
next
  case (Some a)
  with arrayCells_bound [OF assms(2)] have "a < length h" by (simp add: arrayCells_def)
  from deref_prefix_eq [OF assms(1) this] Some show ?thesis by (simp add: arrayCells_def)
qed

lemma traceCells_prefix:
  assumes "take (length h) h' = h" and "readTrace h a = Some d"
  shows "traceCells h' a = traceCells h a"
proof -
  from assms(2) obtain fs fn fe st kf c t ss ns es
    where a: "deref h a = Some (TraceO fs fn fe st kf c t)"
      and f: "readField h stageOf fs = Some ss" "readField h nodeOf fn = Some ns"
             "readField h edgeOf fe = Some es"
    by (auto simp: readTrace_def split: option.splits obj.splits)
  from deref_prefix [OF assms(1) a] a f [THEN arrayCells_prefix [OF assms(1)]]
  show ?thesis by (simp add: traceCells_def)
qed

lemma readTrace_sample: "readTrace sample_store 0 = Some sample_trace"
  by (simp add: readTrace_def readField_def readArray_def deref_def sample_store_def
      sample_trace_def)

section \<open>The store: what the layout writes\<close>

lemma writeNodes_length: "length (writeNodes as ns h) = length h"
  by (induction as ns h rule: writeNodes.induct) simp_all

lemma writeNodes_take:
  "\<forall>a \<in> set as. n \<le> a \<Longrightarrow> take n (writeNodes as ns h) = take n h"
  by (induction as ns h rule: writeNodes.induct) simp_all

lemma setPositions_length: "length (setPositions m ns h) = length h + length ns"
  by (induction ns arbitrary: h) (simp_all add: alloc_def split: option.splits obj.splits)

lemma setPositions_take:
  "n \<le> m \<Longrightarrow> n \<le> length h \<Longrightarrow> take n (setPositions m ns h) = take n h"
  by (induction ns arbitrary: h) (simp_all add: alloc_def split: option.splits obj.splits)

lemma setPositions_map:
  "deref h m = Some (MapO es) \<Longrightarrow>
   \<exists>es'. deref (setPositions m ns h) m = Some (MapO es')
        \<and> snd ` set es' \<subseteq> snd ` set es \<union> {length h..<length h + length ns}"
proof (induction ns arbitrary: h es)
  case Nil
  then show ?case by auto
next
  case (Cons node rest)
  let ?h1 = "h @ [PointO (position node)]"
  let ?es1 = "AList.update (id_n node) (length h) es"
  let ?h2 = "?h1[m := MapO ?es1]"
  from Cons.prems have m: "m < length h" "h ! m = MapO es" by (simp_all add: deref_Some)
  then have d1: "deref ?h1 m = Some (MapO es)" by (simp add: deref_Some nth_append)
  from m have d2: "deref ?h2 m = Some (MapO ?es1)" by (simp add: deref_Some)
  have step: "setPositions m (node # rest) h = setPositions m rest ?h2"
    using d1 by (simp add: alloc_def)
  from Cons.IH [OF d2] obtain es' where
    e: "deref (setPositions m rest ?h2) m = Some (MapO es')"
       "snd ` set es' \<subseteq> snd ` set ?es1 \<union> {length ?h2..<length ?h2 + length rest}"
    by blast
  have u: "snd ` set ?es1 \<subseteq> snd ` set es \<union> {length h}"
    by (induction es) auto
  have r: "{length ?h2..<length ?h2 + length rest} \<union> {length h}
             \<subseteq> {length h..<length h + length (node # rest)}"
    by auto
  from e(2) u r
  have "snd ` set es' \<subseteq> snd ` set es \<union> {length h..<length h + length (node # rest)}"
    by blast
  with e(1) step show ?case by auto
qed

lemma layoutStore_empty:
  "data = None \<or> (\<exists>a d. data = Some a \<and> readTrace h a = Some d
      \<and> (nodes d = None \<or> nodes d = Some [])) \<Longrightarrow>
   layoutStore d3 random h data = Some (h @ [MapO [], LayoutO (length h)], Suc (length h))"
  by (auto simp: layoutStore_def emptyLayout_def alloc_def)

lemma layoutStore_nodes:
  assumes "readTrace h a = Some d" and "nodes d = Some ns" and "ns \<noteq> []"
  shows "layoutStore d3 random h (Some a) =
     (let es = (case edges d of Some es \<Rightarrow> es | None \<Rightarrow> []);
          h4 = h @ map D3NodeO (d3Nodes random ns)
                 @ [ArrayO [length h..<length h + length ns]]
                 @ map D3LinkO (d3Links ns es)
                 @ [ArrayO [Suc (length h + length ns)..<
                            Suc (length h + length ns) + length (d3Links ns es)]];
          h5 = writeNodes [length h..<length h + length ns] (simulated d3 random d ns) h4;
          h7 = setPositions (length h5) (simulated d3 random d ns) (h5 @ [MapO []])
      in Some (h7 @ [LayoutO (length h5)], length h7))"
  using assms by (simp add: layoutStore_def alloc_def allocs_def Let_def length_d3Nodes)

lemma input_framed:
  assumes "take (length h) h' = h" and "readTrace h a = Some d"
    and "\<forall>c \<in> layoutCells h' r. length h \<le> c"
  shows "(\<forall>c \<in> traceCells h a. deref h' c = deref h c)
       \<and> readTrace h' a = Some d
       \<and> traceCells h' a = traceCells h a
       \<and> traceCells h a \<inter> layoutCells h' r = {}"
proof -
  note b = traceCells_bound [OF assms(2)]
  have 1: "\<forall>c \<in> traceCells h a. deref h' c = deref h c"
    using b deref_prefix_eq [OF assms(1)] by blast
  have 4: "traceCells h a \<inter> layoutCells h' r = {}"
    using b assms(3) by fastforce
  from 1 4 readTrace_prefix [OF assms(1,2)] traceCells_prefix [OF assms(1,2)]
  show ?thesis by blast
qed

lemma layoutStore_result:
  assumes "readTrace h a = Some d"
  shows "\<exists>h' r. layoutStore d3 random h (Some a) = Some (h', r)
           \<and> take (length h) h' = h \<and> (\<forall>c \<in> layoutCells h' r. length h \<le> c)"
proof (cases "nodes d = None \<or> nodes d = Some []")
  case True
  let ?h' = "h @ [MapO [], LayoutO (length h)]"
  have "layoutStore d3 random h (Some a) = Some (?h', Suc (length h))"
    using assms True by (intro layoutStore_empty) auto
  moreover have "\<forall>c \<in> layoutCells ?h' (Suc (length h)). length h \<le> c"
    by (simp add: layoutCells_def deref_def nth_append)
  ultimately show ?thesis by simp
next
  case False
  then obtain ns where ns: "nodes d = Some ns" "ns \<noteq> []" by auto
  define post where "post = simulated d3 random d ns"
  define es where "es = (case edges d of Some es \<Rightarrow> es | None \<Rightarrow> [])"
  define h4 where "h4 = h @ map D3NodeO (d3Nodes random ns)
                 @ [ArrayO [length h..<length h + length ns]]
                 @ map D3LinkO (d3Links ns es)
                 @ [ArrayO [Suc (length h + length ns)..<
                            Suc (length h + length ns) + length (d3Links ns es)]]"
  define h5 where "h5 = writeNodes [length h..<length h + length ns] post h4"
  define h7 where "h7 = setPositions (length h5) post (h5 @ [MapO []])"
  have res: "layoutStore d3 random h (Some a) = Some (h7 @ [LayoutO (length h5)], length h7)"
    by (simp add: layoutStore_nodes [OF assms ns] Let_def h7_def h5_def h4_def es_def post_def)
  have l4: "length h \<le> length h4" by (simp add: h4_def)
  have l5: "length h5 = length h4" by (simp add: h5_def writeNodes_length)
  have l7: "length h7 = Suc (length h5) + length post"
    by (simp add: h7_def setPositions_length)
  have t4: "take (length h) h4 = h" by (simp add: h4_def)
  have t5: "take (length h) h5 = h"
    unfolding h5_def using t4 by (subst writeNodes_take) simp_all
  have t7: "take (length h) h7 = h"
    unfolding h7_def using t5 l4 l5 by (subst setPositions_take) simp_all
  have t: "take (length h) (h7 @ [LayoutO (length h5)]) = h"
    using t7 l4 l5 l7 by simp
  have "deref (h5 @ [MapO []]) (length h5) = Some (MapO [])"
    by (simp add: deref_def)
  from setPositions_map [OF this, of post] obtain es' where
    e: "deref h7 (length h5) = Some (MapO es')"
       "snd ` set es' \<subseteq> {Suc (length h5)..<Suc (length h5) + length post}"
    by (auto simp: h7_def)
  from e(1) have m: "deref (h7 @ [LayoutO (length h5)]) (length h5) = Some (MapO es')"
    by (simp add: deref_Some nth_append)
  have r: "deref (h7 @ [LayoutO (length h5)]) (length h7) = Some (LayoutO (length h5))"
    by (simp add: deref_def)
  have "layoutCells (h7 @ [LayoutO (length h5)]) (length h7)
          = insert (length h7) (insert (length h5) (snd ` set es'))"
    by (simp add: layoutCells_def r m)
  with e(2) l4 l5 l7 have "\<forall>c \<in> layoutCells (h7 @ [LayoutO (length h5)]) (length h7). length h \<le> c"
    by auto
  with res t show ?thesis by blast
qed

section \<open>The store: the result is the layout\<close>

lemma map_update_values:
  "map (\<lambda>(k, v). (k, f v)) (AList.update k0 v0 al)
     = AList.update k0 (f v0) (map (\<lambda>(k, v). (k, f v)) al)"
  by (induction al) auto

lemma setPositions_points:
  assumes "deref h m = Some (MapO es)"
    and "\<forall>p \<in> snd ` set es. m < p \<and> p < length h"
    and "map (\<lambda>(k, p). (k, deref h p)) es = map (\<lambda>(k, v). (k, Some (PointO v))) acc"
  shows "\<exists>es'. deref (setPositions m ns h) m = Some (MapO es')
          \<and> (\<forall>p \<in> snd ` set es'. m < p \<and> p < length (setPositions m ns h))
          \<and> map (\<lambda>(k, p). (k, deref (setPositions m ns h) p)) es'
              = map (\<lambda>(k, v). (k, Some (PointO v)))
                  (foldl (\<lambda>acc node. AList.update (id_n node) (position node) acc) acc ns)"
  using assms
proof (induction ns arbitrary: h es acc)
  case Nil
  then show ?case by simp
next
  case (Cons node rest)
  let ?pos = "position node"
  let ?h1 = "h @ [PointO ?pos]"
  let ?es1 = "AList.update (id_n node) (length h) es"
  let ?h2 = "?h1[m := MapO ?es1]"
  let ?acc1 = "AList.update (id_n node) ?pos acc"
  from Cons.prems(1) have m: "m < length h" "h ! m = MapO es" by (simp_all add: deref_Some)
  then have d1: "deref ?h1 m = Some (MapO es)" by (simp add: deref_Some nth_append)
  from m have d2: "deref ?h2 m = Some (MapO ?es1)" by (simp add: deref_Some)
  have step: "setPositions m (node # rest) h = setPositions m rest ?h2"
    using d1 by (simp add: alloc_def)
  have u: "snd ` set ?es1 \<subseteq> snd ` set es \<union> {length h}"
    by (induction es) auto
  have b2: "\<forall>p \<in> snd ` set ?es1. m < p \<and> p < length ?h2"
    using u Cons.prems(2) m(1) by fastforce
  have old: "\<forall>p \<in> snd ` set es. deref ?h2 p = deref h p"
    using Cons.prems(2) by (auto simp: deref_def nth_append)
  have new: "deref ?h2 (length h) = Some (PointO ?pos)"
    using m(1) by (simp add: deref_def)
  have "map (\<lambda>(k, p). (k, deref ?h2 p)) es = map (\<lambda>(k, p). (k, deref h p)) es"
    using old by (auto intro!: map_cong)
  then have "map (\<lambda>(k, p). (k, deref ?h2 p)) ?es1
               = AList.update (id_n node) (Some (PointO ?pos))
                   (map (\<lambda>(k, v). (k, Some (PointO v))) acc)"
    by (simp only: map_update_values new Cons.prems(3))
  then have v2: "map (\<lambda>(k, p). (k, deref ?h2 p)) ?es1
               = map (\<lambda>(k, v). (k, Some (PointO v))) ?acc1"
    by (simp only: map_update_values)
  from Cons.IH [OF d2 b2 v2] step show ?case by simp
qed

lemma readLayout_points:
  assumes "deref h r = Some (LayoutO m)" and "deref h m = Some (MapO es)"
    and "map (\<lambda>(k, p). (k, deref h p)) es = map (\<lambda>(k, v). (k, Some (PointO v))) tp"
  shows "readLayout h r = Some \<lparr>nodePositions = tp\<rparr>"
proof -
  from assms(3) have "map (\<lambda>(k, p). Option.bind (deref h p) pointOf) es = map (\<lambda>(k, v). Some v) tp
      \<and> map fst es = map fst tp"
  proof (induction es arbitrary: tp)
    case Nil
    then show ?case by simp
  next
    case (Cons e es)
    then show ?case by (cases tp; cases e) auto
  qed
  moreover have "those (map (\<lambda>(k, v). Some v) tp) = Some (map snd tp)"
    by (induction tp) auto
  ultimately show ?thesis
    using assms(1,2) by (simp add: readLayout_def zip_map_fst_snd)
qed

lemma layoutStore_agrees:
  assumes "readTrace h a = Some d"
  shows "\<exists>h' r. layoutStore d3 random h (Some a) = Some (h', r)
           \<and> readLayout h' r = Some (layout d3 random (Some d))"
proof (cases "nodes d = None \<or> nodes d = Some []")
  case True
  let ?h' = "h @ [MapO [], LayoutO (length h)]"
  have "layoutStore d3 random h (Some a) = Some (?h', Suc (length h))"
    using assms True by (intro layoutStore_empty) auto
  moreover have "readLayout ?h' (Suc (length h)) = Some \<lparr>nodePositions = []\<rparr>"
    by (simp add: readLayout_def deref_def nth_append)
  moreover have "layout d3 random (Some d) = \<lparr>nodePositions = []\<rparr>"
    using True by (auto simp: layout_def)
  ultimately show ?thesis by simp
next
  case False
  then obtain ns where ns: "nodes d = Some ns" "ns \<noteq> []" by auto
  define post where "post = simulated d3 random d ns"
  define es where "es = (case edges d of Some es \<Rightarrow> es | None \<Rightarrow> [])"
  define h4 where "h4 = h @ map D3NodeO (d3Nodes random ns)
                 @ [ArrayO [length h..<length h + length ns]]
                 @ map D3LinkO (d3Links ns es)
                 @ [ArrayO [Suc (length h + length ns)..<
                            Suc (length h + length ns) + length (d3Links ns es)]]"
  define h5 where "h5 = writeNodes [length h..<length h + length ns] post h4"
  define h7 where "h7 = setPositions (length h5) post (h5 @ [MapO []])"
  let ?h' = "h7 @ [LayoutO (length h5)]"
  have res: "layoutStore d3 random h (Some a) = Some (?h', length h7)"
    by (simp add: layoutStore_nodes [OF assms ns] Let_def h7_def h5_def h4_def es_def post_def)
  have l7: "length h7 = Suc (length h5) + length post"
    by (simp add: h7_def setPositions_length)
  have "deref (h5 @ [MapO []]) (length h5) = Some (MapO [])"
    by (simp add: deref_def)
  from setPositions_points [OF this, of "[]" post] obtain es' where
    e: "deref h7 (length h5) = Some (MapO es')"
       "\<forall>p \<in> snd ` set es'. length h5 < p \<and> p < length h7"
       "map (\<lambda>(k, p). (k, deref h7 p)) es'
          = map (\<lambda>(k, v). (k, Some (PointO v))) (toPositions post)"
    by (auto simp: h7_def toPositions_def)
  from e(1) have m: "deref ?h' (length h5) = Some (MapO es')"
    by (simp add: deref_Some nth_append)
  have r: "deref ?h' (length h7) = Some (LayoutO (length h5))"
    by (simp add: deref_def)
  have "map (\<lambda>(k, p). (k, deref ?h' p)) es' = map (\<lambda>(k, p). (k, deref h7 p)) es'"
    using e(2) by (auto intro!: map_cong simp: deref_def nth_append)
  with e(3) have "map (\<lambda>(k, p). (k, deref ?h' p)) es'
          = map (\<lambda>(k, v). (k, Some (PointO v))) (toPositions post)"
    by simp
  from readLayout_points [OF r m this] res
  show ?thesis by (simp add: layout_nonempty [OF ns] post_def)
qed

section \<open>The input is left alone\<close>

text \<open>
  C9. For every store that holds a graph at the address handed to the layout, the call
  returns, and in the store it leaves every object that existed before holds the value
  it held before (the store only grew): in particular the trace object, its stages,
  nodes and edges arrays and every object in them, so the same graph is read at the same
  addresses afterwards. No address of the graph is an address of the result (the
  returned object, its map and the points the map refers to), all of which the call
  allocated. The result read out of the store is the layout of the graph. This rests on
  d3 writing only the objects it is handed, which are copies made by the layout.
\<close>

theorem layout_leaves_input:
  assumes "readTrace h a = Some d"
  shows "\<exists>h' r. layoutStore d3 random h (Some a) = Some (h', r)
           \<and> take (length h) h' = h
           \<and> (\<forall>c \<in> traceCells h a. deref h' c = deref h c)
           \<and> readTrace h' a = Some d
           \<and> traceCells h' a = traceCells h a
           \<and> traceCells h a \<inter> layoutCells h' r = {}
           \<and> readLayout h' r = Some (layout d3 random (Some d))"
proof -
  from layoutStore_result [OF assms, of d3 random] obtain h' r where
    r: "layoutStore d3 random h (Some a) = Some (h', r)" "take (length h) h' = h"
       "\<forall>c \<in> layoutCells h' r. length h \<le> c"
    by blast
  from layoutStore_agrees [OF assms, of d3 random] r(1)
  have "readLayout h' r = Some (layout d3 random (Some d))" by auto
  with input_framed [OF r(2) assms r(3)] r(1,2) show ?thesis by blast
qed

theorem layout_leaves_input_witness:
  "readTrace sample_store 0 = Some sample_trace
   \<and> (\<exists>h' r. layoutStore d3_settling sample_random sample_store (Some 0) = Some (h', r)
           \<and> take (length sample_store) h' = sample_store
           \<and> readTrace h' 0 = Some sample_trace
           \<and> traceCells sample_store 0 \<inter> layoutCells h' r = {}
           \<and> readLayout h' r = Some (layout d3_settling sample_random (Some sample_trace)))"
  using layout_leaves_input [OF readTrace_sample, of d3_settling sample_random]
    readTrace_sample by blast

section \<open>The entrance animation\<close>

lemma easeCubicOut_0: "easeCubicOut 0 = 0"
  by (simp add: easeCubicOut_def)

lemma easeCubicOut_1: "easeCubicOut 1 = 1"
  by (simp add: easeCubicOut_def)

lemma easeCubicOut_mono: "s \<le> t \<Longrightarrow> easeCubicOut s \<le> easeCubicOut t"
proof -
  assume "s \<le> t"
  then have "(s - 1) ^ 3 \<le> (t - 1) ^ 3" by (intro power_mono_odd) simp_all
  then show ?thesis by (simp add: easeCubicOut_def power3_eq_cube)
qed

text \<open>The first frame records its timestamp and emits 0.\<close>

lemma animate_first:
  "start a = None \<Longrightarrow>
   animate s a = \<lparr>start = Some s, animationProgress = 0, pending = True\<rparr>"
  by (simp add: animate_def easeCubicOut_def)

text \<open>
  Once a start other than 0 is recorded, a frame at time \<open>now\<close> emits the eased ratio
  and requests another frame only while the ratio is below 1.
\<close>

lemma animate_later:
  "start a = Some s \<Longrightarrow> s \<noteq> 0 \<Longrightarrow>
   animate now a = \<lparr>start = Some s,
                     animationProgress = easeCubicOut (min ((now - s) / 1500) 1),
                     pending = ((now - s) / 1500 < 1)\<rparr>"
  by (auto simp: animate_def Let_def min_def)

lemma progress_mono:
  "now \<le> now' \<Longrightarrow>
   easeCubicOut (min ((now - s) / 1500) 1) \<le> easeCubicOut (min ((now' - s) / 1500) 1)"
  by (intro easeCubicOut_mono min.mono divide_right_mono) simp_all

lemma frames_done: "\<not> pending a \<Longrightarrow> frames ts a = a"
  by (induction ts) (simp_all add: frames_def frame_def)

text \<open>After the clean-up no frame runs the callback.\<close>

lemma frames_cleanup: "frames ts (cleanup a) = cleanup a"
  by (rule frames_done) (simp add: cleanup_def)

lemma frames_append: "frames (xs @ ys) a = frames ys (frames xs a)"
  by (simp add: frames_def)

lemma frames_running:
  assumes "s \<noteq> 0" and "\<forall>t \<in> set ts. (t - s) / 1500 < 1"
  shows "start (frames (s # ts) effect) = Some s \<and> pending (frames (s # ts) effect)"
  using assms(2)
proof (induction ts rule: rev_induct)
  case Nil
  show ?case by (simp add: frames_def frame_def effect_def animate_first)
next
  case (snoc t ts)
  then have st: "start (frames (s # ts) effect) = Some s" "pending (frames (s # ts) effect)"
    and t: "(t - s) / 1500 < 1" by simp_all
  have "frames (s # ts @ [t]) effect = frame t (frames (s # ts) effect)"
    using frames_append [of "s # ts" "[t]" effect] by (simp add: frames_def)
  with st t show ?case
    by (simp add: frame_def animate_later [OF st(1) assms(1)])
qed

text \<open>
  A run whose first frame comes at a time \<open>s\<close> other than 0: after further frames, all
  before \<open>s + 1500\<close>, the frame at \<open>now\<close> leaves the progress at
  \<open>easeCubicOut (min ((now - s) / 1500) 1)\<close> and requests another frame exactly when the
  ratio is still below 1. With \<open>progress_mono\<close> and \<open>frames_done\<close>: the progress does
  not decrease along the run, and stays once the ratio has reached 1.
\<close>

lemma run_progress:
  assumes "s \<noteq> 0" and "\<forall>t \<in> set ts. (t - s) / 1500 < 1"
  shows "frames (s # ts @ [now]) effect =
           \<lparr>start = Some s,
            animationProgress = easeCubicOut (min ((now - s) / 1500) 1),
            pending = ((now - s) / 1500 < 1)\<rparr>"
proof -
  from frames_running [OF assms]
  have st: "start (frames (s # ts) effect) = Some s" "pending (frames (s # ts) effect)"
    by simp_all
  have "frames (s # ts @ [now]) effect = frame now (frames (s # ts) effect)"
    using frames_append [of "s # ts" "[now]" effect] by (simp add: frames_def)
  with st show ?thesis
    by (simp add: frame_def animate_later [OF st(1) assms(1)])
qed

lemma run_example:
  "frames [16, 766, 1516, 1600] effect
     = \<lparr>start = Some 16, animationProgress = 1, pending = False\<rparr>"
  by (simp add: frames_def frame_def animate_def effect_def easeCubicOut_def)

text \<open>
  C6. Take a run of the animation whose first frame comes at a time s other than 0
  (the timestamps are those of \<^verbatim>\<open>requestAnimationFrame\<close>, times since the page's
  time origin, and the component is mounted after a reply or a click), with further
  frames at times before s + 1500. The frame at time now leaves the progress at
  easeCubicOut (min ((now - s) / 1500) 1). The progress is 0 at now = s and 1 at
  now = s + 1500. It does not decrease as now grows, as a function of now and from one
  frame to the next. Once the ratio has reached 1 no frame is pending, and later frames
  change nothing.
\<close>

theorem animation_progress:
  assumes "s \<noteq> 0" and "\<forall>t \<in> set ts. (t - s) / 1500 < 1"
  shows "frames (s # ts @ [now]) effect =
           \<lparr>start = Some s,
            animationProgress = easeCubicOut (min ((now - s) / 1500) 1),
            pending = ((now - s) / 1500 < 1)\<rparr>
       \<and> animationProgress (frames [s] effect) = 0
       \<and> animationProgress (frames (s # ts @ [s + 1500]) effect) = 1
       \<and> (\<forall>now'. now \<le> now' \<longrightarrow>
             animationProgress (frames (s # ts @ [now]) effect)
               \<le> animationProgress (frames (s # ts @ [now']) effect))
       \<and> (\<forall>now'. now \<le> now' \<longrightarrow>
             animationProgress (frames (s # ts @ [now]) effect)
               \<le> animationProgress (frames (s # ts @ [now, now']) effect))
       \<and> (1 \<le> (now - s) / 1500 \<longrightarrow>
             \<not> pending (frames (s # ts @ [now]) effect)
             \<and> (\<forall>more. frames (s # ts @ [now] @ more) effect
                         = frames (s # ts @ [now]) effect))"
proof -
  note run = run_progress [OF assms]
  have 1: "frames (s # ts @ [now]) effect =
           \<lparr>start = Some s,
            animationProgress = easeCubicOut (min ((now - s) / 1500) 1),
            pending = ((now - s) / 1500 < 1)\<rparr>"
    by (rule run)
  have 2: "animationProgress (frames [s] effect) = 0"
    by (simp add: frames_def frame_def effect_def animate_first)
  have 3: "animationProgress (frames (s # ts @ [s + 1500]) effect) = 1"
    by (simp add: run easeCubicOut_1)
  have 4: "\<forall>now'. now \<le> now' \<longrightarrow>
             animationProgress (frames (s # ts @ [now]) effect)
               \<le> animationProgress (frames (s # ts @ [now']) effect)"
    by (simp add: run progress_mono)
  have 6: "1 \<le> (now - s) / 1500 \<longrightarrow>
             \<not> pending (frames (s # ts @ [now]) effect)
             \<and> (\<forall>more. frames (s # ts @ [now] @ more) effect
                         = frames (s # ts @ [now]) effect)"
  proof
    assume r: "1 \<le> (now - s) / 1500"
    then have np: "\<not> pending (frames (s # ts @ [now]) effect)" by (simp add: 1)
    have "frames (s # ts @ [now] @ more) effect = frames (s # ts @ [now]) effect" for more
      using frames_append [of "s # ts @ [now]" more effect] frames_done [OF np, of more]
      by simp
    with np show "\<not> pending (frames (s # ts @ [now]) effect)
             \<and> (\<forall>more. frames (s # ts @ [now] @ more) effect
                         = frames (s # ts @ [now]) effect)"
      by blast
  qed
  have 5: "\<forall>now'. now \<le> now' \<longrightarrow>
             animationProgress (frames (s # ts @ [now]) effect)
               \<le> animationProgress (frames (s # ts @ [now, now']) effect)"
  proof (intro allI impI)
    fix now' assume le: "now \<le> now'"
    show "animationProgress (frames (s # ts @ [now]) effect)
               \<le> animationProgress (frames (s # ts @ [now, now']) effect)"
    proof (cases "(now - s) / 1500 < 1")
      case True
      with assms(2) have "\<forall>t \<in> set (ts @ [now]). (t - s) / 1500 < 1" by simp
      from run_progress [OF assms(1) this, of now']
      have "frames (s # ts @ [now, now']) effect =
           \<lparr>start = Some s,
            animationProgress = easeCubicOut (min ((now' - s) / 1500) 1),
            pending = ((now' - s) / 1500 < 1)\<rparr>"
        by simp
      with le show ?thesis by (simp add: 1 progress_mono)
    next
      case False
      with 6 have "frames (s # ts @ [now] @ [now']) effect = frames (s # ts @ [now]) effect"
        by simp
      then show ?thesis by simp
    qed
  qed
  from 1 2 3 4 5 6 show ?thesis by blast
qed

theorem animation_progress_witness:
  "frames [16, 766, 1516] effect = \<lparr>start = Some 16, animationProgress = 1, pending = False\<rparr>
   \<and> frames [16, 766] effect
       = \<lparr>start = Some 16, animationProgress = easeCubicOut (1 / 2), pending = True\<rparr>
   \<and> animationProgress (frames [16] effect) = 0
   \<and> frames ([16, 766, 1516] @ [1532, 1548]) effect = frames [16, 766, 1516] effect"
proof -
  have s: "(16::real) \<noteq> 0" by simp
  have a: "\<forall>t \<in> set [766::real]. (t - 16) / 1500 < 1" by simp
  have b: "\<forall>t \<in> set ([]::real list). (t - 16) / 1500 < 1" by simp
  note A = animation_progress [OF s a, of 1516]
  note B = animation_progress [OF s b, of 766]
  from A have 1: "frames [16, 766, 1516] effect
      = \<lparr>start = Some 16, animationProgress = 1, pending = False\<rparr>"
    by (simp add: easeCubicOut_1)
  have r: "(1::real) \<le> (1516 - 16) / 1500" by simp
  from A r have "\<forall>more. frames (16 # [766] @ [1516] @ more) effect
      = frames (16 # [766] @ [1516]) effect"
    by blast
  then have 4: "frames ([16, 766, 1516] @ [1532, 1548]) effect = frames [16, 766, 1516] effect"
    by simp
  from B have 2: "frames [16, 766] effect
       = \<lparr>start = Some 16, animationProgress = easeCubicOut (1 / 2), pending = True\<rparr>"
    by simp
  from B have 3: "animationProgress (frames [16] effect) = 0" by simp
  from 1 2 3 4 show ?thesis by blast
qed

text \<open>
  Why the start is taken other than 0: \<^verbatim>\<open>!start\<close> takes a recorded 0 for
  \<^verbatim>\<open>undefined\<close>. Were the first frame to come at time 0, a second frame at time
  1500 would record 1500 as the start and emit the progress 0.
\<close>

lemma zero_start_restarts:
  "frames [0, 1500] effect = \<lparr>start = Some 1500, animationProgress = 0, pending = True\<rparr>
   \<and> easeCubicOut (min ((1500 - 0) / 1500) 1) = 1"
  by (simp add: frames_def frame_def animate_def effect_def easeCubicOut_def)

end
